theory Spec2Isabelle
  imports Main "HOL-Library.Multiset" "HOL-Library.Sublist"
begin

section \<open>Go values: integers, errors, text\<close>

text \<open>
  Go's \<open>int\<close> is a signed 64-bit integer on the platforms the server is built for.
  The model computes on \<open>int\<close> and writes the wrap-around out: \<open>i64\<close> is applied
  to the result of every addition the code performs on values that come from the caller.
\<close>

definition i64 :: "int \<Rightarrow> int" where
  "i64 x = (x + 2 ^ 63) mod 2 ^ 64 - 2 ^ 63"

definition maxInt :: int where
  "maxInt = 2 ^ 63 - 1"

text \<open>A Go \<open>error\<close> value is represented by the text its \<open>Error()\<close> method returns.\<close>

datatype error = Err string

fun errorText :: "error \<Rightarrow> string" where
  "errorText (Err s) = s"

text \<open>
  A run-time panic of the Go program: a slice expression out of range, or a field read
  through a nil pointer.
\<close>

datatype panic = SliceBoundsOutOfRange | NilPointerDereference

definition NL :: char where
  "NL = CHR 0x0A"

text \<open>\<open>strconv.Itoa\<close> and the \<open>%d\<close> verb: decimal digits, a minus sign for negatives.\<close>

fun digits :: "nat \<Rightarrow> string" where
  "digits n = (if n < 10 then [''0123456789'' ! n]
               else digits (n div 10) @ [''0123456789'' ! (n mod 10)])"

declare digits.simps [simp del]

definition itoa :: "int \<Rightarrow> string" where
  "itoa i = (if i < 0 then CHR ''-'' # digits (nat (- i)) else digits (nat i))"

text \<open>\<open>strings.Split(s, "\n")\<close>: one more element than there are newlines.\<close>

fun splitLines :: "string \<Rightarrow> string list" where
  "splitLines [] = [[]]"
| "splitLines (c # cs) =
     (let r = splitLines cs in if c = NL then [] # r else (c # hd r) # tl r)"

text \<open>\<open>strings.Join(lines, "\n")\<close>.\<close>

fun joinLines :: "string list \<Rightarrow> string" where
  "joinLines [] = []"
| "joinLines [l] = l"
| "joinLines (l # ls) = l @ [NL] @ joinLines ls"

text \<open>
  A slice expression \<open>xs[lo:hi]\<close>: Go panics unless \<open>0 \<le> lo \<le> hi \<le> cap(xs)\<close>.
  The slices taken here come from \<open>strings.Split\<close>, whose result has capacity equal
  to its length.
\<close>

definition slice :: "'a list \<Rightarrow> int \<Rightarrow> int \<Rightarrow> panic + 'a list" where
  "slice xs lo hi =
     (if 0 \<le> lo \<and> lo \<le> hi \<and> hi \<le> int (length xs)
      then Inr (take (nat (hi - lo)) (drop (nat lo) xs))
      else Inl SliceBoundsOutOfRange)"

section \<open>Pagination window (fullscan: applyPagination)\<close>

text \<open>
  Modelled from the spec: the constant \<open>types.MaxDefaultLines\<close>. The file that declares
  it is not among the sources; the specification (4.2) names 200 as the default and the
  test \<open>TestConstants\<close> of package \<open>types\<close> requires that value.
\<close>

definition MaxDefaultLines :: int where
  "MaxDefaultLines = 200"

text \<open>
  The banner produced by
  \<open>fmt.Sprintf("[Showing lines %d-%d of %d lines. Use offset parameter to view more.]\n\n", a, b, total)\<close>.
\<close>

definition banner :: "int \<Rightarrow> int \<Rightarrow> int \<Rightarrow> string" where
  "banner a b n =
     ''[Showing lines '' @ itoa a @ ''-'' @ itoa b @ '' of '' @ itoa n
       @ '' lines. Use offset parameter to view more.]'' @ [NL, NL]"

text \<open>The limit in force: \<open>if maxLines == 0 { maxLines = types.MaxDefaultLines }\<close>.\<close>

definition effectiveMax :: "int \<Rightarrow> int" where
  "effectiveMax maxLines = (if maxLines = 0 then MaxDefaultLines else maxLines)"

text \<open>
  The first half of \<open>applyPagination\<close>: the default for \<open>maxLines\<close> and the choice
  of the window among the lines. The result is the window and the \<open>truncated\<close> flag,
  or the panic of an out-of-range slice expression.
\<close>

definition paginationWindow :: "string list \<Rightarrow> int \<Rightarrow> int \<Rightarrow> panic + (string list \<times> bool)" where
  "paginationWindow lines maxLines0 offset =
     (let maxLines = effectiveMax maxLines0;
          totalLines = int (length lines)
      in if offset > 0 \<and> offset < totalLines then
           (if i64 (offset + maxLines) < totalLines
            then map_sum id (\<lambda>w. (w, True)) (slice lines offset (i64 (offset + maxLines)))
            else map_sum id (\<lambda>w. (w, False)) (slice lines offset totalLines))
         else if totalLines > maxLines then
           map_sum id (\<lambda>w. (w, True)) (slice lines 0 maxLines)
         else Inr (lines, False))"

text \<open>The whole function: the window is joined again and the banner is put in front.\<close>

definition applyPagination :: "string \<Rightarrow> int \<Rightarrow> int \<Rightarrow> panic + string" where
  "applyPagination output maxLines offset =
     (let lines = splitLines output;
          totalLines = int (length lines)
      in case paginationWindow lines maxLines offset of
           Inl p \<Rightarrow> Inl p
         | Inr (window, truncated) \<Rightarrow>
             Inr ((if truncated \<or> offset > 0
                   then banner (i64 (offset + 1)) (i64 (offset + int (length window))) totalLines
                   else [])
                  @ joinLines window))"

section \<open>Scanners and the parallel orchestrator (package fullscan)\<close>

text \<open>
  Functions of Go's standard library and of the validator package that the report and
  the handlers call. They are parameters of the model: every theorem holds whatever they
  compute.
  \<^item> \<open>fmtSeconds d\<close> is \<open>fmt.Sprintf("%.2f", d.Seconds())\<close> for a \<open>time.Duration\<close> of
    \<open>d\<close> nanoseconds (a floating-point rendering);
  \<^item> \<open>padName s\<close> is \<open>fmt.Sprintf("%-10s", s)\<close> (the width counts runes);
  \<^item> \<open>ToUpper\<close> and \<open>TrimSpace\<close> are the functions of package \<open>strings\<close>;
  \<^item> \<open>isHostnameOrIP\<close> is the validator's check for the tag \<open>hostname|ip\<close>.
\<close>

record GoLib =
  fmtSeconds :: "int \<Rightarrow> string"
  padName :: "string \<Rightarrow> string"
  ToUpper :: "string \<Rightarrow> string"
  TrimSpace :: "string \<Rightarrow> string"
  isHostnameOrIP :: "string \<Rightarrow> bool"

text \<open>\<open>tools.ScanParams\<close> and \<open>tools.ScanResult\<close>.\<close>

record ScanParams =
  Host :: string
  Port :: int
  Vhost :: string

record ScanResult =
  Output :: string
  Error :: "error option"

text \<open>
  The \<open>tools.Scanner\<close> interface: \<open>Name()\<close>, \<open>IsAvailable()\<close> and \<open>Scan(ctx, params)\<close>.
  \<open>Elapsed\<close> is the reading of the clock: the nanoseconds that \<open>time.Since(start)\<close>
  returns after the scanner's \<open>Scan\<close> call.
\<close>

record Scanner =
  Name :: string
  IsAvailable :: bool
  Scan :: "ScanParams \<Rightarrow> ScanResult"
  Elapsed :: "ScanParams \<Rightarrow> int"

text \<open>\<open>scannerResult\<close>: the result from a single scanner with timing.\<close>

record scannerResult =
  rName :: string
  rOutput :: string
  rDuration :: int
  rError :: "error option"

text \<open>The \<open>Tool\<close> of package fullscan; its logger has no part in the results.\<close>

record Tool =
  scanners :: "Scanner list"

text \<open>The input of the \<open>full_scan\<close> tool, with its validation tags.\<close>

record Input =
  inHost :: string
  inPort :: int
  inVhost :: string
  MaxLines :: int
  Offset :: int

record CallToolResult =
  Content :: "string list"

definition reportLineWidth :: nat where
  "reportLineWidth = 78"

definition defaultHost :: string where
  "defaultHost = ''localhost''"

definition defaultPort :: int where
  "defaultPort = 80"

text \<open>
  \<open>Register\<close>: only the available scanners are kept, and registration fails when there
  is none. The value returned on success is the tool as \<open>Register\<close> leaves it; the handler
  that it hands to the server is \<open>FullScanHandler\<close> of that tool, wrapped by
  \<open>WrapToolHandler\<close>.
\<close>

definition Register :: "Tool \<Rightarrow> error + Tool" where
  "Register t =
     (let availableScanners = filter IsAvailable (scanners t)
      in if length availableScanners = 0
         then Inl (Err ''no scanner binaries available'')
         else Inr (t\<lparr>scanners := availableScanners\<rparr>))"

text \<open>
  A call of the method \<open>Scan\<close> of a scanner. Besides the result, the call leaves its
  trace in the log of calls: the name of the scanner called and the parameters given.
\<close>

definition callScan ::
  "Scanner \<Rightarrow> ScanParams \<Rightarrow> (string \<times> ScanParams) list
     \<Rightarrow> ScanResult \<times> (string \<times> ScanParams) list" where
  "callScan sc params calls = (Scan sc params, calls @ [(Name sc, params)])"

text \<open>
  The body of the goroutine that \<open>runScannersParallel\<close> starts for one scanner: it calls
  \<open>Scan\<close> and builds the record that it sends.
\<close>

definition scanTask ::
  "ScanParams \<Rightarrow> Scanner \<Rightarrow> (string \<times> ScanParams) list
     \<Rightarrow> scannerResult \<times> (string \<times> ScanParams) list" where
  "scanTask params currentScanner calls =
     (let (scanResult, calls') = callScan currentScanner params calls
      in (\<lparr>rName = Name currentScanner, rOutput = Output scanResult,
           rDuration = Elapsed currentScanner params, rError = Error scanResult\<rparr>, calls'))"

text \<open>
  The state of one fan-out: the goroutines that were started and have not yet sent their
  result, the contents of the channel in the order of sending, and the log of the \<open>Scan\<close>
  calls made so far.
\<close>

record fanState =
  running :: "Scanner list"
  resultsChan :: "scannerResult list"
  scanCalls :: "(string \<times> ScanParams) list"

text \<open>Goroutine number \<open>j\<close> among the running ones runs its body and sends the record.\<close>

definition finish :: "nat \<Rightarrow> ScanParams \<Rightarrow> fanState \<Rightarrow> fanState" where
  "finish j params s =
     (let (result, calls') = scanTask params (running s ! j) (scanCalls s)
      in \<lparr>running = take j (running s) @ drop (Suc j) (running s),
          resultsChan = resultsChan s @ [result],
          scanCalls = calls'\<rparr>)"

text \<open>
  The Go scheduler decides which goroutine completes next. The schedule \<open>sched\<close> makes
  the choice explicit: its head, taken modulo the number of running goroutines, selects
  the one that finishes; an exhausted schedule selects the first. Every order of
  completion is produced by some schedule. The run ends when no goroutine is left, which
  is when the channel is closed.
\<close>

function fanIn :: "nat list \<Rightarrow> ScanParams \<Rightarrow> fanState \<Rightarrow> fanState" where
  "fanIn sched params s =
     (if running s = [] then s
      else case sched of
             [] \<Rightarrow> fanIn [] params (finish 0 params s)
           | i # rest \<Rightarrow> fanIn rest params (finish (i mod length (running s)) params s))"
  by pat_completeness auto
termination
  by (relation "measure (\<lambda>(sched, params, s). length (running s))")
     (auto simp: finish_def neq_Nil_conv split: prod.splits)

declare fanIn.simps [simp del]

text \<open>
  \<open>runScannersParallel\<close>: one goroutine per scanner of the tool; the results are
  collected from the channel until it is closed. The second component is the log of the
  \<open>Scan\<close> calls.
\<close>

definition runScannersParallel ::
  "nat list \<Rightarrow> Tool \<Rightarrow> ScanParams
     \<Rightarrow> scannerResult list \<times> (string \<times> ScanParams) list" where
  "runScannersParallel sched t params =
     (let s = fanIn sched params \<lparr>running = scanners t, resultsChan = [], scanCalls = []\<rparr>
      in (resultsChan s, scanCalls s))"

subsection \<open>The merged report\<close>

definition separator :: string where
  "separator = ''='' @ replicate reportLineWidth CHR ''=''"

definition dashLine :: string where
  "dashLine = ''-'' @ replicate reportLineWidth CHR ''-''"

definition status :: "scannerResult \<Rightarrow> string" where
  "status result = (if rError result \<noteq> None then ''FAILED'' else ''SUCCESS'')"

text \<open>
  One line of the summary:
  \<open>fmt.Sprintf("  %-10s: %s (%.2fs)\n", result.Name, status, result.Duration.Seconds())\<close>.
\<close>

definition summaryLine :: "GoLib \<Rightarrow> scannerResult \<Rightarrow> string" where
  "summaryLine lib result =
     ''  '' @ padName lib (rName result) @ '': '' @ status result
       @ '' ('' @ fmtSeconds lib (rDuration result) @ ''s)'' @ [NL]"

text \<open>
  The first loop over the results: it writes the summary lines and accumulates the total
  duration (a 64-bit sum) and the two counters.
\<close>

fun summaryLoop ::
  "GoLib \<Rightarrow> scannerResult list \<Rightarrow> string \<times> int \<times> int \<times> int \<Rightarrow> string \<times> int \<times> int \<times> int" where
  "summaryLoop lib [] acc = acc"
| "summaryLoop lib (result # results) (builder, totalDuration, successCount, failCount) =
     summaryLoop lib results
       (builder @ summaryLine lib result,
        i64 (totalDuration + rDuration result),
        (if rError result \<noteq> None then successCount else successCount + 1),
        (if rError result \<noteq> None then failCount + 1 else failCount))"

text \<open>The section of one scanner, written by the second loop.\<close>

definition resultSection :: "GoLib \<Rightarrow> scannerResult \<Rightarrow> string" where
  "resultSection lib result =
     separator @ [NL]
     @ ''                    '' @ ToUpper lib (rName result) @ '' RESULTS'' @ [NL]
     @ separator @ [NL, NL]
     @ (case rError result of
          Some e \<Rightarrow>
            ''ERROR: '' @ errorText e @ [NL, NL]
            @ (if rOutput result \<noteq> [] then ''Output:'' @ [NL] @ rOutput result @ [NL] else [])
        | None \<Rightarrow> TrimSpace lib (rOutput result) @ [NL])
     @ [NL]"

text \<open>
  The parts of the report that \<open>mergeResults\<close> writes around the two loops: the header
  with the target and the date, the totals after the summary lines, and the closing marker.
\<close>

definition reportHeader :: "string \<Rightarrow> string \<Rightarrow> string" where
  "reportHeader targetURL date =
     separator @ [NL]
     @ ''                    FULL SECURITY SCAN REPORT'' @ [NL]
     @ separator @ [NL]
     @ ''Target: '' @ targetURL @ [NL]
     @ ''Date: '' @ date @ [NL]
     @ separator @ [NL, NL]
     @ ''SCAN SUMMARY'' @ [NL]
     @ dashLine @ [NL]"

definition reportTotals :: "GoLib \<Rightarrow> nat \<Rightarrow> int \<Rightarrow> int \<Rightarrow> int \<Rightarrow> string" where
  "reportTotals lib n successCount failCount totalDuration =
     [NL] @ ''Total scanners: '' @ itoa (int n)
       @ '' | Successful: '' @ itoa successCount
       @ '' | Failed: '' @ itoa failCount @ [NL]
     @ ''Total scan time: '' @ fmtSeconds lib totalDuration @ ''s'' @ [NL]
     @ [NL]"

definition reportFooter :: string where
  "reportFooter =
     separator @ [NL]
     @ ''                    END OF REPORT'' @ [NL]
     @ separator @ [NL]"

text \<open>
  \<open>mergeResults\<close>. The argument \<open>date\<close> is the reading of the clock that the function
  takes itself: the text of \<open>time.Now().UTC().Format(time.RFC1123)\<close>.
\<close>

definition mergeResults :: "GoLib \<Rightarrow> string \<Rightarrow> string \<Rightarrow> scannerResult list \<Rightarrow> string" where
  "mergeResults lib date targetURL results =
     (let (summary, totalDuration, successCount, failCount) =
            summaryLoop lib results ([], 0, 0, 0)
      in reportHeader targetURL date
         @ summary
         @ reportTotals lib (length results) successCount failCount totalDuration
         @ concat (map (resultSection lib) results)
         @ reportFooter)"

subsection \<open>Input validation and the handler\<close>

text \<open>
  The validator reports, for each field in the order of declaration, the first tag that
  the field fails. Its error text is one line per failure,
  \<open>Key: 'Input.F' Error:Field validation for 'F' failed on the 'T' tag\<close>.
\<close>

definition fieldError :: "string \<Rightarrow> string \<times> string \<Rightarrow> string" where
  "fieldError structName ft =
     ''Key: '' @ [CHR 0x27] @ structName @ ''.'' @ fst ft @ [CHR 0x27]
     @ '' Error:Field validation for '' @ [CHR 0x27] @ fst ft @ [CHR 0x27]
     @ '' failed on the '' @ [CHR 0x27] @ snd ft @ [CHR 0x27] @ '' tag''"

definition validationError :: "string \<Rightarrow> (string \<times> string) list \<Rightarrow> error option" where
  "validationError structName failures =
     (if failures = [] then None
      else Some (Err (joinLines (map (fieldError structName) failures))))"

text \<open>The tags \<open>min=lo,max=hi\<close> on an integer field.\<close>

definition minMax :: "string \<Rightarrow> int \<Rightarrow> int \<Rightarrow> int \<Rightarrow> (string \<times> string) list" where
  "minMax field lo hi v =
     (if v < lo then [(field, ''min'')] else if v > hi then [(field, ''max'')] else [])"

definition validateInput :: "GoLib \<Rightarrow> Input \<Rightarrow> error option" where
  "validateInput lib input =
     validationError ''Input''
       ((if inHost input \<noteq> [] \<and> \<not> isHostnameOrIP lib (inHost input)
         then [(''Host'', ''hostname|ip'')] else [])
        @ minMax ''Port'' 0 65535 (inPort input)
        @ minMax ''MaxLines'' 0 100000 (MaxLines input)
        @ (if Offset input < 0 then [(''Offset'', ''min'')] else []))"

text \<open>\<open>net.JoinHostPort\<close>: a host that contains a colon is put in brackets.\<close>

definition JoinHostPort :: "string \<Rightarrow> string \<Rightarrow> string" where
  "JoinHostPort host port =
     (if CHR '':'' \<in> set host then ''['' @ host @ '']:'' @ port else host @ '':'' @ port)"

definition scanParamsOf :: "Input \<Rightarrow> ScanParams" where
  "scanParamsOf input =
     \<lparr>Host = (if inHost input \<noteq> [] then inHost input else defaultHost),
      Port = (if inPort input \<noteq> 0 then inPort input else defaultPort),
      Vhost = inVhost input\<rparr>"

definition targetURLOf :: "Input \<Rightarrow> string" where
  "targetURLOf input =
     ''http://'' @ JoinHostPort (Host (scanParamsOf input)) (itoa (Port (scanParamsOf input)))"

text \<open>
  The text that \<open>FullScanHandler\<close> holds in \<open>mergedOutput\<close>: the results of the parallel
  run, merged.
\<close>

definition mergedOutput :: "GoLib \<Rightarrow> nat list \<Rightarrow> string \<Rightarrow> Tool \<Rightarrow> Input \<Rightarrow> string" where
  "mergedOutput lib sched date t input =
     mergeResults lib date (targetURLOf input)
       (fst (runScannersParallel sched t (scanParamsOf input)))"

text \<open>Of \<open>mcp.CallToolRequest\<close> the handlers read the session only.\<close>

record CallToolRequest =
  Session :: "string option"

text \<open>
  \<open>FullScanHandler\<close> returns \<open>(result, nil, err)\<close>, or ends in a panic. It does not look
  at the request. Its second result, of type \<open>any\<close>, is always nil: the model gives it the
  type \<open>unit\<close>.
\<close>

definition FullScanHandler ::
  "GoLib \<Rightarrow> nat list \<Rightarrow> string \<Rightarrow> Tool \<Rightarrow> CallToolRequest option \<Rightarrow> Input
     \<Rightarrow> panic + (CallToolResult option \<times> unit \<times> error option)" where
  "FullScanHandler lib sched date t req input =
     (case validateInput lib input of
        Some err \<Rightarrow> Inr (None, (), Some (Err (''validation error: '' @ errorText err)))
      | None \<Rightarrow>
          (case applyPagination (mergedOutput lib sched date t input) (MaxLines input) (Offset input) of
             Inl p \<Rightarrow> Inl p
           | Inr resultText \<Rightarrow> Inr (Some \<lparr>Content = [resultText]\<rparr>, (), None)))"

section \<open>The execution record and the logging interceptor (package tools)\<close>

text \<open>
  \<open>models.ToolExecution\<close>. Times are nanoseconds counted from Go's zero \<open>time.Time\<close>,
  so that \<open>0\<close> is the zero time; \<open>DeletedAt\<close> is \<open>gorm.DeletedAt\<close>, a time that may be
  null.
\<close>

record ToolExecution =
  ID :: nat
  CreatedAt :: int
  DeletedAt :: "int option"
  SessionID :: string
  ToolName :: string
  InputJSON :: string
  OutputJSON :: string
  ErrorMessage :: string
  DurationMs :: int
  Success :: bool

text \<open>\<open>Duration.Milliseconds()\<close>: integer division that truncates towards zero.\<close>

definition Milliseconds :: "int \<Rightarrow> int" where
  "Milliseconds d = sgn d * (\<bar>d\<bar> div 1000000)"

text \<open>
  \<open>WrapToolHandler store toolName handler\<close>. The two encoders stand for \<open>json.Marshal\<close>
  on the input and on the result (an encoding error is dropped by the code and leaves the
  empty text); \<open>duration\<close> is the reading \<open>time.Since(startTime)\<close>. The wrapped handler
  returns the handler's triple unchanged, together with the record that the detached
  goroutine passes to \<open>store.CreateToolExecution\<close>. The request is a pointer: reading
  its session through nil panics. A panic of the handler ends the call before any record
  is built.
\<close>

definition WrapToolHandler ::
  "('i \<Rightarrow> string) \<Rightarrow> ('r \<Rightarrow> string) \<Rightarrow> string
     \<Rightarrow> (CallToolRequest option \<Rightarrow> 'i \<Rightarrow> panic + ('r option \<times> 'o \<times> error option))
     \<Rightarrow> int \<Rightarrow> CallToolRequest option \<Rightarrow> 'i
     \<Rightarrow> panic + (('r option \<times> 'o \<times> error option) \<times> ToolExecution)" where
  "WrapToolHandler marshalInput marshalResult toolName handler duration req input =
     (case req of
        None \<Rightarrow> Inl NilPointerDereference
      | Some request \<Rightarrow>
          (let sessionID = (case Session request of None \<Rightarrow> [] | Some sid \<Rightarrow> sid);
               inputJSON = marshalInput input
           in case handler req input of
                Inl p \<Rightarrow> Inl p
              | Inr (result, output, err) \<Rightarrow>
                  (let exec = \<lparr>ID = 0, CreatedAt = 0, DeletedAt = None, SessionID = sessionID,
                               ToolName = toolName, InputJSON = inputJSON, OutputJSON = [],
                               ErrorMessage = [], DurationMs = Milliseconds duration,
                               Success = (err = None)\<rparr>
                   in Inr ((result, output, err),
                        (case err of
                           Some e \<Rightarrow> exec\<lparr>ErrorMessage := errorText e\<rparr>
                         | None \<Rightarrow>
                             (case result of
                                Some r \<Rightarrow> exec\<lparr>OutputJSON := marshalResult r\<rparr>
                              | None \<Rightarrow> exec))))))"

section \<open>The execution ledger (package storage, over GORM and SQLite)\<close>

text \<open>
  The table \<open>tool_executions\<close>. \<open>rows\<close> holds every row, soft-deleted ones included, in
  the order of the table scan, which is the order of the primary key. \<open>seq\<close> is the
  counter that SQLite keeps for an \<open>AUTOINCREMENT\<close> key: the largest key ever used.
  \<open>closed\<close> is set by \<open>Close\<close>; every later statement fails.
\<close>

record Storage =
  rows :: "ToolExecution list"
  seq :: nat
  closed :: bool

definition emptyStorage :: Storage where
  "emptyStorage = \<lparr>rows = [], seq = 0, closed = False\<rparr>"

definition ErrRecordNotFound :: error where
  "ErrRecordNotFound = Err ''record not found''"

definition errClosed :: error where
  "errClosed = Err ''sql: database is closed''"

definition errUnique :: error where
  "errUnique = Err ''UNIQUE constraint failed: tool_executions.id''"

text \<open>GORM adds \<open>deleted_at IS NULL\<close> to every query on a model with a \<open>DeletedAt\<close> field.\<close>

definition live :: "ToolExecution \<Rightarrow> bool" where
  "live r = (DeletedAt r = None)"

text \<open>
  \<open>ORDER BY created_at DESC\<close>. The query names no second key. SQLite sorts the rows of
  the scan and keeps rows with equal keys in the order of the scan; \<open>sort_key\<close> is such a
  stable sort.
\<close>

definition orderByCreatedAtDesc :: "ToolExecution list \<Rightarrow> ToolExecution list" where
  "orderByCreatedAtDesc rs = sort_key (\<lambda>r. - CreatedAt r) rs"

text \<open>
  \<open>CreateToolExecution\<close> at time \<open>now\<close>: GORM fills a zero \<open>CreatedAt\<close> with the current
  time; SQLite assigns the key \<open>seq + 1\<close> to a record whose \<open>ID\<close> is zero and refuses a
  record whose \<open>ID\<close> is already in the table. The result is the store, the record as the
  call leaves it, and the error.
\<close>

definition CreateToolExecution ::
  "int \<Rightarrow> Storage \<Rightarrow> ToolExecution \<Rightarrow> Storage \<times> ToolExecution \<times> error option" where
  "CreateToolExecution now s exec =
     (if closed s then (s, exec, Some errClosed)
      else let stamped = (if CreatedAt exec = 0 then exec\<lparr>CreatedAt := now\<rparr> else exec)
           in if ID exec = 0 then
                (let row = stamped\<lparr>ID := Suc (seq s)\<rparr>
                 in (s\<lparr>rows := insort_key ID row (rows s), seq := Suc (seq s)\<rparr>, row, None))
              else if ID exec \<in> ID ` set (rows s) then (s, stamped, Some errUnique)
              else (s\<lparr>rows := insort_key ID stamped (rows s), seq := max (seq s) (ID exec)\<rparr>,
                    stamped, None))"

text \<open>\<open>GetToolExecution\<close>: \<open>First(&exec, id)\<close>.\<close>

definition GetToolExecution :: "Storage \<Rightarrow> nat \<Rightarrow> error + ToolExecution" where
  "GetToolExecution s ident =
     (if closed s then Inl errClosed
      else case filter (\<lambda>r. ID r = ident \<and> live r) (rows s) of
             [] \<Rightarrow> Inl ErrRecordNotFound
           | r # _ \<Rightarrow> Inr r)"

text \<open>
  \<open>GetToolExecutions\<close>: the count of the live rows (its error is not looked at, and
  leaves \<open>total\<close> zero), then the ordered query with \<open>Limit\<close> and \<open>Offset\<close> applied only
  when positive.
\<close>

definition GetToolExecutions ::
  "Storage \<Rightarrow> int \<Rightarrow> int \<Rightarrow> ToolExecution list \<times> int \<times> error option" where
  "GetToolExecutions s limit offset =
     (if closed s then ([], 0, Some errClosed)
      else let ordered = orderByCreatedAtDesc (filter live (rows s));
               skipped = (if offset > 0 then drop (nat offset) ordered else ordered);
               executions = (if limit > 0 then take (nat limit) skipped else skipped)
           in (executions, int (length (filter live (rows s))), None))"

definition GetToolExecutionsBySession ::
  "Storage \<Rightarrow> string \<Rightarrow> ToolExecution list \<times> error option" where
  "GetToolExecutionsBySession s sessionID =
     (if closed s then ([], Some errClosed)
      else (orderByCreatedAtDesc (filter (\<lambda>r. SessionID r = sessionID \<and> live r) (rows s)), None))"

definition GetToolExecutionsByTool ::
  "Storage \<Rightarrow> string \<Rightarrow> int \<Rightarrow> ToolExecution list \<times> error option" where
  "GetToolExecutionsByTool s toolName limit =
     (if closed s then ([], Some errClosed)
      else let ordered = orderByCreatedAtDesc (filter (\<lambda>r. ToolName r = toolName \<and> live r) (rows s))
           in ((if limit > 0 then take (nat limit) ordered else ordered), None))"

text \<open>
  \<open>DeleteToolExecution\<close> at time \<open>now\<close>: GORM turns the delete into
  \<open>UPDATE ... SET deleted_at = now WHERE id = ? AND deleted_at IS NULL\<close>, which is no
  error when it matches no row.
\<close>

definition markDeleted :: "int \<Rightarrow> nat \<Rightarrow> ToolExecution \<Rightarrow> ToolExecution" where
  "markDeleted now ident r = (if ID r = ident \<and> live r then r\<lparr>DeletedAt := Some now\<rparr> else r)"

definition DeleteToolExecution :: "int \<Rightarrow> Storage \<Rightarrow> nat \<Rightarrow> Storage \<times> error option" where
  "DeleteToolExecution now s ident =
     (if closed s then (s, Some errClosed)
      else (s\<lparr>rows := map (markDeleted now ident) (rows s)\<rparr>, None))"

definition DeleteAllToolExecutions :: "int \<Rightarrow> Storage \<Rightarrow> Storage \<times> error option" where
  "DeleteAllToolExecutions now s =
     (if closed s then (s, Some errClosed)
      else (s\<lparr>rows := map (\<lambda>r. if live r then r\<lparr>DeletedAt := Some now\<rparr> else r) (rows s)\<rparr>,
            None))"

definition Close :: "Storage \<Rightarrow> Storage" where
  "Close s = s\<lparr>closed := True\<rparr>"

text \<open>
  A store as the operations leave it: keys are positive, no key occurs twice, and no key
  exceeds the counter.
\<close>

definition wellFormed :: "Storage \<Rightarrow> bool" where
  "wellFormed s =
     (distinct (map ID (rows s)) \<and> sorted (map ID (rows s))
      \<and> list_all (\<lambda>r. 0 < ID r \<and> ID r \<le> seq s) (rows s))"

section \<open>The history tool (package history)\<close>

record HistoryInput =
  Action :: string
  hID :: nat
  Limit :: int
  hOffset :: int

definition validateHistoryInput :: "HistoryInput \<Rightarrow> error option" where
  "validateHistoryInput input =
     validationError ''Input''
       ((if Action input = [] then [(''Action'', ''required'')]
         else if Action input \<notin> {''list'', ''get'', ''delete'', ''clear''}
         then [(''Action'', ''oneof'')] else [])
        @ minMax ''Limit'' 0 100 (Limit input)
        @ (if hOffset input < 0 then [(''Offset'', ''min'')] else []))"

text \<open>
  The two uses of \<open>json.MarshalIndent\<close> in the handler: on the map with the keys
  \<open>total\<close>, \<open>limit\<close>, \<open>offset\<close> and \<open>executions\<close>, and on one record.
\<close>

record Encoders =
  marshalList :: "int \<Rightarrow> int \<Rightarrow> int \<Rightarrow> ToolExecution list \<Rightarrow> string"
  marshalExec :: "ToolExecution \<Rightarrow> string"

text \<open>
  \<open>HistoryHandler\<close> at time \<open>now\<close>. The result is the pair of the handler's \<open>result\<close>
  and \<open>err\<close>, and the store after the call.
\<close>

definition HistoryHandler ::
  "Encoders \<Rightarrow> int \<Rightarrow> Storage \<Rightarrow> HistoryInput
     \<Rightarrow> (CallToolResult option \<times> error option) \<times> Storage" where
  "HistoryHandler enc now store input =
     (case validateHistoryInput input of
        Some err \<Rightarrow> ((None, Some (Err (''validation error: '' @ errorText err))), store)
      | None \<Rightarrow>
          if Action input = ''list'' then
            (let limit = (if Limit input = 0 then 10 else Limit input)
             in case GetToolExecutions store limit (hOffset input) of
                  (executions, totalCount, Some err) \<Rightarrow>
                    ((None, Some (Err (''failed to list executions: '' @ errorText err))), store)
                | (executions, totalCount, None) \<Rightarrow>
                    ((Some \<lparr>Content = [marshalList enc totalCount limit (hOffset input) executions]\<rparr>,
                      None), store))
          else if Action input = ''get'' then
            (if hID input = 0 then ((None, Some (Err ''id is required for get action'')), store)
             else case GetToolExecution store (hID input) of
                    Inl err \<Rightarrow>
                      ((None, Some (Err (''execution not found: '' @ errorText err))), store)
                  | Inr exec \<Rightarrow> ((Some \<lparr>Content = [marshalExec enc exec]\<rparr>, None), store))
          else if Action input = ''delete'' then
            (if hID input = 0 then ((None, Some (Err ''id is required for delete action'')), store)
             else case DeleteToolExecution now store (hID input) of
                    (store', Some err) \<Rightarrow>
                      ((None, Some (Err (''failed to delete execution: '' @ errorText err))), store')
                  | (store', None) \<Rightarrow>
                      ((Some \<lparr>Content = [''Execution '' @ itoa (int (hID input))
                                           @ '' deleted successfully'']\<rparr>, None), store'))
          else if Action input = ''clear'' then
            (case DeleteAllToolExecutions now store of
               (store', Some err) \<Rightarrow>
                 ((None, Some (Err (''failed to clear executions: '' @ errorText err))), store')
             | (store', None) \<Rightarrow>
                 ((Some \<lparr>Content = [''All execution history cleared'']\<rparr>, None), store'))
          else ((Some \<lparr>Content = [[]]\<rparr>, None), store))"

section \<open>Test doubles and an instance of the library\<close>

text \<open>
  \<open>mockScanner\<close> of the package's tests: a scanner that answers with a fixed output and
  error; \<open>scanDelay\<close> is the time its \<open>Scan\<close> takes.
\<close>

definition mockScanner :: "string \<Rightarrow> bool \<Rightarrow> string \<Rightarrow> error option \<Rightarrow> int \<Rightarrow> Scanner" where
  "mockScanner name available scanOutput scanError scanDelay =
     \<lparr>Name = name, IsAvailable = available,
      Scan = (\<lambda>params. \<lparr>Output = scanOutput, Error = scanError\<rparr>),
      Elapsed = (\<lambda>params. scanDelay)\<rparr>"

text \<open>
  An instance of the library parameters, for the evaluation of examples.
  \<^item> A name is padded with blanks to ten characters, the letters \<open>a\<close> to \<open>z\<close> are raised,
    and blanks, tabs and line ends are trimmed at both ends: this is what Go does on
    ASCII text.
  \<^item> A duration is rounded to the nearest hundredth of a second, halves upwards. Go rounds
    the binary floating-point value, so the two can differ only for a duration that lies
    exactly between two hundredths.
  \<^item> A host is accepted when it matches the validator's pattern for RFC 952 host names,
    \<open>^[a-zA-Z]([a-zA-Z0-9\-]+[\.]?)*[a-zA-Z0-9]$\<close>, or is an IPv4 address of four decimal
    fields without leading zeros. The validator accepts IPv6 addresses as well; this
    instance does not recognise them.
\<close>

definition asciiSpace :: "char \<Rightarrow> bool" where
  "asciiSpace c = (c \<in> set [CHR '' '', CHR 0x09, CHR 0x0A, CHR 0x0B, CHR 0x0C, CHR 0x0D])"

definition isDigit :: "char \<Rightarrow> bool" where
  "isDigit c = (c \<in> set ''0123456789'')"

definition isLetter :: "char \<Rightarrow> bool" where
  "isLetter c = (c \<in> set ''abcdefghijklmnopqrstuvwxyzABCDEFGHIJKLMNOPQRSTUVWXYZ'')"

text \<open>
  The middle of a host name, \<open>([a-zA-Z0-9\-]+[\.]?)*\<close>: letters, digits and hyphens, and
  dots that each follow one of these. The flag says whether a dot may come next.
\<close>

fun labelsOK :: "bool \<Rightarrow> string \<Rightarrow> bool" where
  "labelsOK dotAllowed [] = True"
| "labelsOK dotAllowed (c # cs) =
     (if c = CHR ''.'' then dotAllowed \<and> labelsOK False cs
      else (isLetter c \<or> isDigit c \<or> c = CHR ''-'') \<and> labelsOK True cs)"

definition hostnameRFC952 :: "string \<Rightarrow> bool" where
  "hostnameRFC952 h =
     (2 \<le> length h \<and> isLetter (hd h) \<and> (isLetter (last h) \<or> isDigit (last h))
      \<and> labelsOK False (butlast (tl h)))"

fun splitDots :: "string \<Rightarrow> string list" where
  "splitDots [] = [[]]"
| "splitDots (c # cs) =
     (let r = splitDots cs in if c = CHR ''.'' then [] # r else (c # hd r) # tl r)"

fun octet :: "string \<Rightarrow> bool" where
  "octet [a] = isDigit a"
| "octet [a, b] = (isDigit a \<and> a \<noteq> CHR ''0'' \<and> isDigit b)"
| "octet [a, b, c] =
     ((a = CHR ''1'' \<and> isDigit b \<and> isDigit c)
      \<or> (a = CHR ''2'' \<and> b \<in> set ''01234'' \<and> isDigit c)
      \<or> (a = CHR ''2'' \<and> b = CHR ''5'' \<and> c \<in> set ''012345''))"
| "octet f = False"

definition ipv4 :: "string \<Rightarrow> bool" where
  "ipv4 h = (length (splitDots h) = 4 \<and> list_all octet (splitDots h))"

definition roundedSeconds :: "int \<Rightarrow> string" where
  "roundedSeconds d =
     (let hundredths = (\<bar>d\<bar> + 5000000) div 10000000
      in (if d < 0 then ''-'' else [])
         @ itoa (hundredths div 100) @ ''.''
         @ digits (nat (hundredths mod 100 div 10)) @ digits (nat (hundredths mod 10)))"

definition exampleLib :: GoLib where
  "exampleLib =
     \<lparr>fmtSeconds = roundedSeconds,
      padName = (\<lambda>s. s @ replicate (10 - length s) CHR '' ''),
      ToUpper = map (\<lambda>c. if c \<in> set ''abcdefghijklmnopqrstuvwxyz''
                          then char_of (of_char c - (32 :: nat)) else c),
      TrimSpace = (\<lambda>s. rev (dropWhile asciiSpace (rev (dropWhile asciiSpace s)))),
      isHostnameOrIP = (\<lambda>h. hostnameRFC952 h \<or> ipv4 h)\<rparr>"

text \<open>
  A handler that fails with an error whose text is empty, as
  \<open>return nil, nil, errors.New("")\<close> does, on an input of type \<open>struct{}\<close>, whose JSON
  encoding is \<open>{}\<close>; an encoding of a result by its texts, and one of a scan input by
  its port.
\<close>

definition emptyErrorHandler ::
  "CallToolRequest option \<Rightarrow> unit \<Rightarrow> panic + (CallToolResult option \<times> unit \<times> error option)" where
  "emptyErrorHandler req input = Inr (None, (), Some (Err []))"

definition marshalEmptyStruct :: "unit \<Rightarrow> string" where
  "marshalEmptyStruct input = ''{}''"

definition marshalTexts :: "CallToolResult \<Rightarrow> string" where
  "marshalTexts result = concat (Content result)"

definition marshalPort :: "Input \<Rightarrow> string" where
  "marshalPort input = ''{port:'' @ itoa (inPort input) @ ''}''"

text \<open>The operations that change the ledger, and a sequence of them applied in order.\<close>

datatype ledgerOp = OpCreate int ToolExecution | OpDelete int nat | OpDeleteAll int

fun applyOp :: "ledgerOp \<Rightarrow> Storage \<Rightarrow> Storage" where
  "applyOp (OpCreate now exec) s = fst (CreateToolExecution now s exec)"
| "applyOp (OpDelete now ident) s = fst (DeleteToolExecution now s ident)"
| "applyOp (OpDeleteAll now) s = fst (DeleteAllToolExecutions now s)"

fun applyOps :: "ledgerOp list \<Rightarrow> Storage \<Rightarrow> Storage" where
  "applyOps [] s = s"
| "applyOps (op # ops) s = applyOps ops (applyOp op s)"

text \<open>
  The state of a retired identifier: the store is open, no key exceeds the counter, and
  the only row with the identifier is the soft-deleted record \<open>d\<close>.
\<close>

definition retired :: "nat \<Rightarrow> ToolExecution \<Rightarrow> Storage \<Rightarrow> bool" where
  "retired ident d s =
     (\<not> closed s \<and> list_all (\<lambda>r. ID r \<le> seq s) (rows s)
      \<and> filter (\<lambda>r. ID r = ident) (rows s) = [d] \<and> \<not> live d)"

text \<open>A record as the interceptor builds it for a successful call of \<open>nikto\<close>.\<close>

definition niktoExec :: ToolExecution where
  "niktoExec =
     \<lparr>ID = 0, CreatedAt = 0, DeletedAt = None, SessionID = [], ToolName = ''nikto'',
      InputJSON = ''{}'', OutputJSON = [], ErrorMessage = [], DurationMs = 0, Success = True\<rparr>"

text \<open>
  An instance of the encoders, for the evaluation of examples: it keeps the three numbers
  and the identifiers of the executions, in their order.
\<close>

definition exampleEncoders :: Encoders where
  "exampleEncoders =
     \<lparr>marshalList = (\<lambda>totalCount limit offset executions.
         ''total='' @ itoa totalCount @ '' limit='' @ itoa limit @ '' offset='' @ itoa offset
         @ '' ids='' @ concat (map (\<lambda>r. '' '' @ itoa (int (ID r))) executions)),
      marshalExec = (\<lambda>r. ''id='' @ itoa (int (ID r)))\<rparr>"

text \<open>The store of the test \<open>TestHistoryHandler_DefaultLimit\<close>, with eleven executions.\<close>

definition elevenExecutions :: Storage where
  "elevenExecutions =
     applyOps [OpCreate 1 niktoExec, OpCreate 2 niktoExec, OpCreate 3 niktoExec,
               OpCreate 4 niktoExec, OpCreate 5 niktoExec, OpCreate 6 niktoExec,
               OpCreate 7 niktoExec, OpCreate 8 niktoExec, OpCreate 9 niktoExec,
               OpCreate 10 niktoExec, OpCreate 11 niktoExec] emptyStorage"

section \<open>Properties of the pagination window\<close>

lemma i64_id: "- (2 ^ 63) \<le> x \<Longrightarrow> x \<le> maxInt \<Longrightarrow> i64 x = x"
  unfolding i64_def maxInt_def by (simp add: mod_pos_pos_trivial)

lemma i64_nonneg: "0 \<le> x \<Longrightarrow> x \<le> maxInt \<Longrightarrow> i64 x = x"
  by (rule i64_id) simp_all

lemma splitLines_nonempty: "splitLines s \<noteq> []"
  by (induction s) (auto simp: Let_def)

lemma length_splitLines_pos: "0 < length (splitLines s)"
  using splitLines_nonempty [of s] by simp

lemma joinLines_splitLines: "joinLines (splitLines s) = s"
proof (induction s)
  case Nil
  then show ?case by simp
next
  case (Cons c cs)
  obtain l ls where r: "splitLines cs = l # ls"
    using splitLines_nonempty [of cs] by (cases "splitLines cs") auto
  show ?case
  proof (cases "c = NL")
    case True
    then show ?thesis using Cons r by simp
  next
    case False
    then show ?thesis using Cons r by (cases ls) (simp_all add: Let_def)
  qed
qed

lemma effectiveMax_bounds:
  "0 \<le> maxLines \<Longrightarrow> maxLines \<le> 100000 \<Longrightarrow> 0 < effectiveMax maxLines \<and> effectiveMax maxLines \<le> 100000"
  by (simp add: effectiveMax_def MaxDefaultLines_def)

text \<open>
  The window for a non-negative limit, when the number of lines leaves room for the limit
  below the largest \<open>int\<close>: no addition wraps and no slice expression panics.
\<close>

lemma paginationWindow_in_range:
  assumes m: "0 \<le> effectiveMax maxLines"
      and len: "int (length lines) + effectiveMax maxLines \<le> maxInt"
  shows "paginationWindow lines maxLines offset =
           Inr (take (nat (effectiveMax maxLines))
                  (if 0 < offset \<and> offset < int (length lines) then drop (nat offset) lines
                   else lines),
                if 0 < offset \<and> offset < int (length lines)
                then offset + effectiveMax maxLines < int (length lines)
                else effectiveMax maxLines < int (length lines))"
proof (cases "0 < offset \<and> offset < int (length lines)")
  case True
  then have "i64 (offset + effectiveMax maxLines) = offset + effectiveMax maxLines"
    using m len by (intro i64_nonneg) linarith+
  with True m show ?thesis
    unfolding paginationWindow_def Let_def slice_def
    by (auto simp: min_def nat_diff_distrib nat_add_distrib)
next
  case False
  with m show ?thesis
    unfolding paginationWindow_def Let_def slice_def
    by auto
qed

lemma applyPagination_in_range:
  assumes m: "0 \<le> effectiveMax maxLines"
      and len: "int (length (splitLines output)) + effectiveMax maxLines \<le> maxInt"
  shows "applyPagination output maxLines offset =
           Inr ((if 0 < offset \<or> effectiveMax maxLines < int (length (splitLines output))
                 then banner (i64 (offset + 1))
                        (i64 (offset + int (length
                           (take (nat (effectiveMax maxLines))
                              (if 0 < offset \<and> offset < int (length (splitLines output))
                               then drop (nat offset) (splitLines output)
                               else splitLines output)))))
                        (int (length (splitLines output)))
                 else [])
                @ joinLines (take (nat (effectiveMax maxLines))
                    (if 0 < offset \<and> offset < int (length (splitLines output))
                     then drop (nat offset) (splitLines output)
                     else splitLines output)))"
  unfolding applyPagination_def Let_def paginationWindow_in_range [OF m len]
  by auto

lemma paginationWindow_overrun:
  assumes "0 < maxLines" "int (length lines) \<le> offset"
  shows "paginationWindow lines maxLines offset =
           Inr (take (nat maxLines) lines, maxLines < int (length lines))"
  using assms unfolding paginationWindow_def Let_def slice_def effectiveMax_def
  by auto

text \<open>
  Claim C2, as the code has it. When \<open>maxLines\<close> is positive and \<open>offset\<close> is at least
  the number of lines, \<open>applyPagination\<close> returns without a panic; the window is not
  empty: it is the first \<open>maxLines\<close> lines of the text (all of them when there are no more),
  the offset is not applied to it, and the banner is in front of it.
\<close>

theorem applyPagination_offset_overrun:
  assumes "0 < maxLines" and "int (length (splitLines output)) \<le> offset"
  shows "paginationWindow (splitLines output) maxLines offset =
           Inr (take (nat maxLines) (splitLines output), maxLines < int (length (splitLines output)))
         \<and> take (nat maxLines) (splitLines output) \<noteq> []
         \<and> applyPagination output maxLines offset =
           Inr (banner (i64 (offset + 1))
                  (i64 (offset + int (length (take (nat maxLines) (splitLines output)))))
                  (int (length (splitLines output)))
                @ joinLines (take (nat maxLines) (splitLines output)))"
proof -
  have w: "paginationWindow (splitLines output) maxLines offset =
           Inr (take (nat maxLines) (splitLines output), maxLines < int (length (splitLines output)))"
    using assms by (rule paginationWindow_overrun)
  have pos: "0 < offset"
    using assms(2) length_splitLines_pos [of "output"] by linarith
  have ne: "take (nat maxLines) (splitLines output) \<noteq> []"
    using assms(1) splitLines_nonempty [of "output"] by simp
  show ?thesis
    using w pos ne by (simp add: applyPagination_def Let_def)
qed

text \<open>
  The theorem at a three-line text with \<open>maxLines = 2\<close> and \<open>offset = 3\<close>.
\<close>

theorem applyPagination_offset_overrun_witness:
  "applyPagination (''line1'' @ [NL] @ ''line2'' @ [NL] @ ''line3'') 2 3 =
     Inr (''[Showing lines 4-5 of 3 lines. Use offset parameter to view more.]'' @ [NL, NL]
          @ ''line1'' @ [NL] @ ''line2'')"
  using applyPagination_offset_overrun [of 2 "''line1'' @ [NL] @ ''line2'' @ [NL] @ ''line3''" 3]
  by (simp add: NL_def banner_def itoa_def digits.simps i64_def)

text \<open>
  Claim C2 as it is written fails: for the three-line text of the test
  \<open>TestApplyPagination_OffsetBeyondEnd\<close>, \<open>maxLines = 10\<close> and \<open>offset = 100\<close>, the window is
  the whole text, not the empty sequence, and the banner is present.
\<close>

theorem applyPagination_offset_overrun_counterexample:
  "paginationWindow (splitLines (''line1'' @ [NL] @ ''line2'' @ [NL] @ ''line3'')) 10 100 =
     Inr ([''line1'', ''line2'', ''line3''], False)
   \<and> applyPagination (''line1'' @ [NL] @ ''line2'' @ [NL] @ ''line3'') 10 100 =
     Inr (''[Showing lines 101-103 of 3 lines. Use offset parameter to view more.]'' @ [NL, NL]
          @ ''line1'' @ [NL] @ ''line2'' @ [NL] @ ''line3'')"
  by (simp add: applyPagination_def paginationWindow_def effectiveMax_def slice_def NL_def
        banner_def itoa_def digits.simps i64_def)

text \<open>
  Claim C6, at the input where the code departs from it. For a text of three lines,
  \<open>maxLines = 10\<close> and \<open>offset = 100\<close>, the window holds lines 1 to 3, while the banner in
  front of it names the lines 101 to 103 of 3: the numbers are computed from the offset,
  which this branch has not applied to the window.
\<close>

theorem applyPagination_banner_overrun:
  "paginationWindow [''line1'', ''line2'', ''line3''] 10 100
     = Inr ([''line1'', ''line2'', ''line3''], False)
   \<and> applyPagination ''line1\<newline>line2\<newline>line3'' 10 100
     = Inr (banner 101 103 3 @ ''line1\<newline>line2\<newline>line3'')
   \<and> banner 101 103 3
     = ''[Showing lines 101-103 of 3 lines. Use offset parameter to view more.]\<newline>\<newline>''"
  by (simp add: applyPagination_def paginationWindow_def effectiveMax_def slice_def NL_def
        banner_def itoa_def digits.simps i64_def)

text \<open>
  Claim C7. With \<open>maxLines = 0\<close> the function returns what it returns with
  \<open>maxLines = 200\<close>, for every text and every offset. For every text that leaves room
  for 200 more lines below the largest \<open>int\<close>, as every text in memory does, the call
  with \<open>maxLines = 0\<close> returns without a panic the first 200 lines of the text from the
  offset on (from the start when the offset is not inside the text), all of them when
  there are fewer, behind the banner when they are not the whole text or the offset is
  positive; this window holds at least one line.
\<close>

theorem applyPagination_zero_is_default:
  "applyPagination output 0 offset = applyPagination output 200 offset
   \<and> (int (length (splitLines output)) + 200 \<le> maxInt \<longrightarrow>
        applyPagination output 0 offset =
          Inr ((if 0 < offset \<or> 200 < int (length (splitLines output))
                then banner (i64 (offset + 1))
                       (i64 (offset + int (length
                          (take 200
                             (if 0 < offset \<and> offset < int (length (splitLines output))
                              then drop (nat offset) (splitLines output)
                              else splitLines output)))))
                       (int (length (splitLines output)))
                else [])
               @ joinLines (take 200
                   (if 0 < offset \<and> offset < int (length (splitLines output))
                    then drop (nat offset) (splitLines output)
                    else splitLines output)))
        \<and> take 200
             (if 0 < offset \<and> offset < int (length (splitLines output))
              then drop (nat offset) (splitLines output)
              else splitLines output) \<noteq> [])"
proof (intro conjI impI)
  have "paginationWindow lines 0 offset = paginationWindow lines 200 offset" for lines
    by (simp add: paginationWindow_def effectiveMax_def MaxDefaultLines_def)
  then show "applyPagination output 0 offset = applyPagination output 200 offset"
    by (simp add: applyPagination_def)
next
  assume fits: "int (length (splitLines output)) + 200 \<le> maxInt"
  have m: "effectiveMax 0 = 200"
    by (simp add: effectiveMax_def MaxDefaultLines_def)
  have "0 \<le> effectiveMax 0"
    and "int (length (splitLines output)) + effectiveMax 0 \<le> maxInt"
    using fits by (simp_all add: m)
  from applyPagination_in_range [OF this, of offset]
  show "applyPagination output 0 offset =
          Inr ((if 0 < offset \<or> 200 < int (length (splitLines output))
                then banner (i64 (offset + 1))
                       (i64 (offset + int (length
                          (take 200
                             (if 0 < offset \<and> offset < int (length (splitLines output))
                              then drop (nat offset) (splitLines output)
                              else splitLines output)))))
                       (int (length (splitLines output)))
                else [])
               @ joinLines (take 200
                   (if 0 < offset \<and> offset < int (length (splitLines output))
                    then drop (nat offset) (splitLines output)
                    else splitLines output)))"
    by (simp only: m) simp
next
  show "take 200
             (if 0 < offset \<and> offset < int (length (splitLines output))
              then drop (nat offset) (splitLines output)
              else splitLines output) \<noteq> []"
    using splitLines_nonempty [of "output"] by auto
qed

text \<open>
  The theorem at a text of three lines: with \<open>maxLines = 0\<close> the whole text comes back for
  the offset 0, and the last two lines behind the banner for the offset 1.
\<close>

theorem applyPagination_zero_is_default_witness:
  "applyPagination ''line1\<newline>line2\<newline>line3'' 0 0 = Inr ''line1\<newline>line2\<newline>line3''
   \<and> applyPagination ''line1\<newline>line2\<newline>line3'' 0 1
     = Inr ''[Showing lines 2-3 of 3 lines. Use offset parameter to view more.]\<newline>\<newline>line2\<newline>line3''"
  using applyPagination_zero_is_default [of "''line1\<newline>line2\<newline>line3''" 0, THEN conjunct2]
    applyPagination_zero_is_default [of "''line1\<newline>line2\<newline>line3''" 1, THEN conjunct2]
  by (simp add: NL_def banner_def itoa_def digits.simps maxInt_def i64_def)

section \<open>Properties of the orchestrator\<close>

lemma scanTask_eq:
  "scanTask params sc calls =
     (\<lparr>rName = Name sc, rOutput = Output (Scan sc params),
       rDuration = Elapsed sc params, rError = Error (Scan sc params)\<rparr>,
      calls @ [(Name sc, params)])"
  by (simp add: scanTask_def callScan_def)

lemma finish_eq:
  "finish j params s =
     \<lparr>running = take j (running s) @ drop (Suc j) (running s),
      resultsChan = resultsChan s @
        [\<lparr>rName = Name (running s ! j), rOutput = Output (Scan (running s ! j) params),
          rDuration = Elapsed (running s ! j) params,
          rError = Error (Scan (running s ! j) params)\<rparr>],
      scanCalls = scanCalls s @ [(Name (running s ! j), params)]\<rparr>"
  by (simp add: finish_def scanTask_eq)

lemma mset_remove_nth:
  "j < length xs \<Longrightarrow> mset (take j xs @ drop (Suc j) xs) + {#xs ! j#} = mset xs"
  by (metis add_mset_add_single id_take_nth_drop mset.simps(2) mset_append union_mset_add_mset_right)

lemma mset_map_remove_nth:
  assumes "j < length xs"
  shows "mset (map f (take j xs @ drop (Suc j) xs)) + {#f (xs ! j)#} = mset (map f xs)"
  using mset_remove_nth [OF assms] by (metis image_mset_single image_mset_union mset_map)

lemma finish_effect:
  assumes "j < length (running s)"
  shows "mset (resultsChan (finish j params s))
           + mset (map (\<lambda>sc. \<lparr>rName = Name sc, rOutput = Output (Scan sc params),
                               rDuration = Elapsed sc params, rError = Error (Scan sc params)\<rparr>)
                    (running (finish j params s)))
         = mset (resultsChan s)
           + mset (map (\<lambda>sc. \<lparr>rName = Name sc, rOutput = Output (Scan sc params),
                               rDuration = Elapsed sc params, rError = Error (Scan sc params)\<rparr>)
                    (running s))"
    and "mset (scanCalls (finish j params s))
           + mset (map (\<lambda>sc. (Name sc, params)) (running (finish j params s)))
         = mset (scanCalls s) + mset (map (\<lambda>sc. (Name sc, params)) (running s))"
  using mset_map_remove_nth [OF assms, of "\<lambda>sc. \<lparr>rName = Name sc, rOutput = Output (Scan sc params),
                               rDuration = Elapsed sc params, rError = Error (Scan sc params)\<rparr>"]
    mset_map_remove_nth [OF assms, of "\<lambda>sc. (Name sc, params)"]
  by (simp_all add: finish_eq ac_simps)

lemma fanIn_collects:
  "running (fanIn sched params s) = []
   \<and> mset (resultsChan (fanIn sched params s))
       = mset (resultsChan s)
         + mset (map (\<lambda>sc. \<lparr>rName = Name sc, rOutput = Output (Scan sc params),
                             rDuration = Elapsed sc params, rError = Error (Scan sc params)\<rparr>)
                  (running s))
   \<and> mset (scanCalls (fanIn sched params s))
       = mset (scanCalls s) + mset (map (\<lambda>sc. (Name sc, params)) (running s))"
proof (induction sched params s rule: fanIn.induct)
  case (1 sched params s)
  show ?case
  proof (cases "running s = []")
    case True
    then show ?thesis by (simp add: fanIn.simps)
  next
    case False
    then have pos: "0 < length (running s)" by simp
    show ?thesis
    proof (cases sched)
      case Nil
      have "fanIn sched params s = fanIn [] params (finish 0 params s)"
        using False Nil by (subst fanIn.simps) simp
      then show ?thesis
        using "1.IH"(1) [OF False Nil] finish_effect [OF pos, of params] by simp
    next
      case (Cons i rest)
      let ?j = "i mod length (running s)"
      have j: "?j < length (running s)" using pos by simp
      have "fanIn sched params s = fanIn rest params (finish ?j params s)"
        using False Cons by (subst fanIn.simps) simp
      then show ?thesis
        using "1.IH"(2) [OF False Cons] finish_effect [OF j, of params] by simp
    qed
  qed
qed

lemma runScannersParallel_collects:
  "mset (fst (runScannersParallel sched t params))
     = mset (map (\<lambda>sc. \<lparr>rName = Name sc, rOutput = Output (Scan sc params),
                         rDuration = Elapsed sc params, rError = Error (Scan sc params)\<rparr>)
              (scanners t))
   \<and> mset (snd (runScannersParallel sched t params))
     = mset (map (\<lambda>sc. (Name sc, params)) (scanners t))"
  using fanIn_collects [of sched params "\<lparr>running = scanners t, resultsChan = [], scanCalls = []\<rparr>"]
  by (simp add: runScannersParallel_def Let_def)

lemma runScannersParallel_length:
  "length (fst (runScannersParallel sched t params)) = length (scanners t)
   \<and> length (snd (runScannersParallel sched t params)) = length (scanners t)"
proof -
  have "size (mset (fst (runScannersParallel sched t params))) = length (scanners t)"
    by (simp only: runScannersParallel_collects) simp
  moreover have "size (mset (snd (runScannersParallel sched t params))) = length (scanners t)"
    by (simp only: runScannersParallel_collects) simp
  ultimately show ?thesis by simp
qed

text \<open>
  Claim C1. Let \<open>k\<close> of the configured scanners be available. When \<open>k = 0\<close>,
  \<open>Register\<close> fails with the error \<open>no scanner binaries available\<close>, so no handler is
  registered and nothing is fanned out. Otherwise \<open>Register\<close> keeps exactly the available
  scanners, and every run of \<open>runScannersParallel\<close> on the registered tool, whatever the
  order of completion, makes exactly \<open>k\<close> calls of \<open>Scan\<close>, one on each available scanner
  with the parameters of the run, and collects exactly \<open>k\<close> records: for each available
  scanner the record that carries its name, the output and the error that its \<open>Scan\<close>
  returned, and the time the call took.
\<close>

theorem orchestrator_runs_available_scanners:
  assumes "k = length (filter IsAvailable (scanners t))"
  shows "(k = 0 \<longrightarrow> Register t = Inl (Err ''no scanner binaries available''))
       \<and> (0 < k \<longrightarrow>
            (\<exists>t'. Register t = Inr t'
               \<and> scanners t' = filter IsAvailable (scanners t)
               \<and> (\<forall>sched params.
                     length (snd (runScannersParallel sched t' params)) = k
                   \<and> mset (snd (runScannersParallel sched t' params))
                       = mset (map (\<lambda>sc. (Name sc, params)) (filter IsAvailable (scanners t)))
                   \<and> length (fst (runScannersParallel sched t' params)) = k
                   \<and> mset (fst (runScannersParallel sched t' params))
                       = mset (map (\<lambda>sc. \<lparr>rName = Name sc, rOutput = Output (Scan sc params),
                                           rDuration = Elapsed sc params,
                                           rError = Error (Scan sc params)\<rparr>)
                                (filter IsAvailable (scanners t))))))"
proof (intro conjI impI)
  assume "k = 0"
  with assms show "Register t = Inl (Err ''no scanner binaries available'')"
    by (simp add: Register_def)
next
  assume pos: "0 < k"
  let ?t' = "t\<lparr>scanners := filter IsAvailable (scanners t)\<rparr>"
  have reg: "Register t = Inr ?t'"
    using pos assms by (simp add: Register_def Let_def)
  have sc: "scanners ?t' = filter IsAvailable (scanners t)"
    by simp
  have run: "length (snd (runScannersParallel sched ?t' params)) = k
           \<and> mset (snd (runScannersParallel sched ?t' params))
               = mset (map (\<lambda>sc. (Name sc, params)) (filter IsAvailable (scanners t)))
           \<and> length (fst (runScannersParallel sched ?t' params)) = k
           \<and> mset (fst (runScannersParallel sched ?t' params))
               = mset (map (\<lambda>sc. \<lparr>rName = Name sc, rOutput = Output (Scan sc params),
                                   rDuration = Elapsed sc params,
                                   rError = Error (Scan sc params)\<rparr>)
                        (filter IsAvailable (scanners t)))" for sched params
    using runScannersParallel_collects [of sched ?t' params]
      runScannersParallel_length [of sched ?t' params] assms
    unfolding sc by simp
  show "\<exists>t'. Register t = Inr t'
               \<and> scanners t' = filter IsAvailable (scanners t)
               \<and> (\<forall>sched params.
                     length (snd (runScannersParallel sched t' params)) = k
                   \<and> mset (snd (runScannersParallel sched t' params))
                       = mset (map (\<lambda>sc. (Name sc, params)) (filter IsAvailable (scanners t)))
                   \<and> length (fst (runScannersParallel sched t' params)) = k
                   \<and> mset (fst (runScannersParallel sched t' params))
                       = mset (map (\<lambda>sc. \<lparr>rName = Name sc, rOutput = Output (Scan sc params),
                                           rDuration = Elapsed sc params,
                                           rError = Error (Scan sc params)\<rparr>)
                                (filter IsAvailable (scanners t))))"
  proof (intro exI [of _ ?t'] conjI allI)
    show "Register t = Inr ?t'" by (rule reg)
    show "scanners ?t' = filter IsAvailable (scanners t)" by (rule sc)
  qed (simp_all only: run)
qed

text \<open>
  The theorem at three scanners of which the first and the third are available, with a
  schedule that lets the third finish first: two calls of \<open>Scan\<close>, on \<open>mock3\<close> and on
  \<open>mock1\<close>, and their two records, each with the name, the output and the error of its
  scanner.
\<close>

theorem orchestrator_runs_available_scanners_witness:
  "\<exists>t'. Register \<lparr>scanners = [mockScanner ''mock1'' True ''findings A'' None 10000000,
                                mockScanner ''mock2'' False [] None 0,
                                mockScanner ''mock3'' True ''partial'' (Some (Err ''connection timeout'')) 20000000]\<rparr>
          = Inr t'
      \<and> length (scanners t') = 2
      \<and> fst (runScannersParallel [1, 0] t' \<lparr>Host = ''localhost'', Port = 80, Vhost = []\<rparr>)
          = [\<lparr>rName = ''mock3'', rOutput = ''partial'', rDuration = 20000000,
               rError = Some (Err ''connection timeout'')\<rparr>,
             \<lparr>rName = ''mock1'', rOutput = ''findings A'', rDuration = 10000000, rError = None\<rparr>]
      \<and> snd (runScannersParallel [1, 0] t' \<lparr>Host = ''localhost'', Port = 80, Vhost = []\<rparr>)
          = [(''mock3'', \<lparr>Host = ''localhost'', Port = 80, Vhost = []\<rparr>),
             (''mock1'', \<lparr>Host = ''localhost'', Port = 80, Vhost = []\<rparr>)]"
proof -
  let ?t = "\<lparr>scanners = [mockScanner ''mock1'' True ''findings A'' None 10000000,
                                mockScanner ''mock2'' False [] None 0,
                                mockScanner ''mock3'' True ''partial'' (Some (Err ''connection timeout'')) 20000000]\<rparr>"
  let ?p = "\<lparr>Host = ''localhost'', Port = 80, Vhost = []\<rparr>"
  have k: "2 = length (filter IsAvailable (scanners ?t))"
    by (simp add: mockScanner_def)
  from orchestrator_runs_available_scanners [OF k]
  obtain t' where t': "Register ?t = Inr t'"
      and sc: "scanners t' = filter IsAvailable (scanners ?t)"
    by auto
  have len: "length (scanners t') = 2"
    unfolding sc by (simp add: mockScanner_def)
  have eq: "t' = \<lparr>scanners = [mockScanner ''mock1'' True ''findings A'' None 10000000,
                          mockScanner ''mock3'' True ''partial'' (Some (Err ''connection timeout'')) 20000000]\<rparr>"
    using t' by (simp add: Register_def mockScanner_def)
  have run: "runScannersParallel [1, 0] t' ?p
          = ([\<lparr>rName = ''mock3'', rOutput = ''partial'', rDuration = 20000000,
               rError = Some (Err ''connection timeout'')\<rparr>,
              \<lparr>rName = ''mock1'', rOutput = ''findings A'', rDuration = 10000000, rError = None\<rparr>],
             [(''mock3'', ?p), (''mock1'', ?p)])"
    unfolding eq by (simp add: runScannersParallel_def fanIn.simps finish_eq mockScanner_def)
  from t' len run show ?thesis by simp
qed

section \<open>Properties of the merged report and of the handler\<close>

lemma summaryLoop_text:
  "fst (summaryLoop lib results (builder, d, ok, bad)) = builder @ concat (map (summaryLine lib) results)"
  by (induction results arbitrary: builder d ok bad) simp_all

lemma sublist_inside: "sublist xs ys \<Longrightarrow> sublist xs (ps @ ys @ ss)"
  unfolding sublist_def by (metis append.assoc)

lemma sublist_concat_map: "r \<in> set rs \<Longrightarrow> sublist (f r) (concat (map f rs))"
proof -
  assume "r \<in> set rs"
  then obtain as bs where "rs = as @ r # bs"
    by (meson split_list)
  then have "concat (map f rs) = concat (map f as) @ f r @ concat (map f bs)"
    by simp
  then show ?thesis
    by (simp only: sublist_appendI)
qed

lemma mergeResults_parts:
  "\<exists>totals. mergeResults lib date targetURL results =
       reportHeader targetURL date @ concat (map (summaryLine lib) results) @ totals
       @ concat (map (resultSection lib) results) @ reportFooter"
proof -
  obtain summary d ok bad where s: "summaryLoop lib results ([], 0, 0, 0) = (summary, d, ok, bad)"
    by (metis prod_cases4)
  have "summary = concat (map (summaryLine lib) results)"
    using summaryLoop_text [of lib results "[]" 0 0 0] s by simp
  then have "mergeResults lib date targetURL results =
       reportHeader targetURL date @ concat (map (summaryLine lib) results)
       @ reportTotals lib (length results) ok bad d
       @ concat (map (resultSection lib) results) @ reportFooter"
    by (simp add: mergeResults_def s)
  then show ?thesis by blast
qed

lemma mergeResults_contains:
  assumes "r \<in> set results"
  shows "sublist (summaryLine lib r) (mergeResults lib date targetURL results)"
    and "sublist (resultSection lib r) (mergeResults lib date targetURL results)"
proof -
  obtain totals where m: "mergeResults lib date targetURL results =
       reportHeader targetURL date @ concat (map (summaryLine lib) results) @ totals
       @ concat (map (resultSection lib) results) @ reportFooter"
    using mergeResults_parts by blast
  show "sublist (summaryLine lib r) (mergeResults lib date targetURL results)"
    unfolding m by (rule sublist_inside) (rule sublist_concat_map [OF assms])
  have "sublist (resultSection lib r)
          ((reportHeader targetURL date @ concat (map (summaryLine lib) results) @ totals)
           @ concat (map (resultSection lib) results) @ reportFooter)"
    by (rule sublist_inside) (rule sublist_concat_map [OF assms])
  then show "sublist (resultSection lib r) (mergeResults lib date targetURL results)"
    unfolding m by simp
qed

lemma reportHeader_date:
  "\<exists>before after. \<forall>date. reportHeader targetURL date = before @ date @ NL # after"
proof -
  have "reportHeader targetURL date =
          (separator @ [NL] @ ''                    FULL SECURITY SCAN REPORT'' @ [NL]
           @ separator @ [NL] @ ''Target: '' @ targetURL @ [NL] @ ''Date: '')
          @ date @ NL # (separator @ [NL, NL] @ ''SCAN SUMMARY'' @ [NL] @ dashLine @ [NL])" for date
    by (simp add: reportHeader_def)
  then show ?thesis by blast
qed

lemma mergeResults_date_inj:
  assumes "mergeResults lib d1 targetURL results = mergeResults lib d2 targetURL results"
  shows "d1 = d2"
proof -
  obtain summary d ok bad where s: "summaryLoop lib results ([], 0, 0, 0) = (summary, d, ok, bad)"
    by (metis prod_cases4)
  obtain before after where h: "\<And>date. reportHeader targetURL date = before @ date @ NL # after"
    using reportHeader_date by blast
  let ?rest = "summary @ reportTotals lib (length results) ok bad d
                 @ concat (map (resultSection lib) results) @ reportFooter"
  have "mergeResults lib date targetURL results = before @ date @ (NL # after @ ?rest)" for date
    by (simp add: mergeResults_def s h)
  with assms have "before @ d1 @ (NL # after @ ?rest) = before @ d2 @ (NL # after @ ?rest)"
    by simp
  then show ?thesis by simp
qed

text \<open>
  Claim C3, as the code has it. \<open>mergeResults\<close> reads the clock and writes it into the
  \<open>Date\<close> line of the header. Two merges of the same list for the same target give the
  same text exactly when the two readings of the clock, formatted to the second, are the
  same.
\<close>

theorem mergeResults_deterministic_given_clock:
  "(mergeResults lib date1 targetURL results = mergeResults lib date2 targetURL results)
     = (date1 = date2)"
  using mergeResults_date_inj by blast

text \<open>
  Claim C3 as it is written fails: the same (empty) list merged for the same target at
  15:04:05 and at 15:04:06 gives two different texts.
\<close>

theorem mergeResults_clock_counterexample:
  "mergeResults exampleLib ''Mon, 02 Jan 2006 15:04:05 UTC'' ''http://localhost:80'' []
     \<noteq> mergeResults exampleLib ''Mon, 02 Jan 2006 15:04:06 UTC'' ''http://localhost:80'' []"
proof
  assume "mergeResults exampleLib ''Mon, 02 Jan 2006 15:04:05 UTC'' ''http://localhost:80'' []
     = mergeResults exampleLib ''Mon, 02 Jan 2006 15:04:06 UTC'' ''http://localhost:80'' []"
  then have "''Mon, 02 Jan 2006 15:04:05 UTC'' = ''Mon, 02 Jan 2006 15:04:06 UTC''"
    by (rule mergeResults_date_inj)
  then show False by simp
qed

lemma validationError_None: "(validationError n fs = None) = (fs = [])"
  by (simp add: validationError_def)

lemma validateInput_None:
  "validateInput lib input = None \<Longrightarrow>
     0 \<le> MaxLines input \<and> MaxLines input \<le> 100000 \<and> 0 \<le> Offset input"
  by (auto simp: validateInput_def validationError_None minMax_def split: if_splits)

lemma exampleLib_localhost: "isHostnameOrIP exampleLib ''localhost''"
  by code_simp

lemma record_in_results:
  assumes "sc \<in> set (scanners t)"
  shows "\<lparr>rName = Name sc, rOutput = Output (Scan sc params),
          rDuration = Elapsed sc params, rError = Error (Scan sc params)\<rparr>
           \<in> set (fst (runScannersParallel sched t params))"
proof -
  let ?R = "\<lambda>sc. \<lparr>rName = Name sc, rOutput = Output (Scan sc params),
                    rDuration = Elapsed sc params, rError = Error (Scan sc params)\<rparr>"
  have "?R sc \<in> set (map ?R (scanners t))"
    using assms by auto
  then have "?R sc \<in># mset (map ?R (scanners t))"
    by (simp only: set_mset_mset)
  then have "?R sc \<in># mset (fst (runScannersParallel sched t params))"
    by (simp only: runScannersParallel_collects)
  then show ?thesis by (simp only: set_mset_mset)
qed

lemma applyPagination_whole:
  assumes "offset = 0" and "int (length (splitLines output)) \<le> effectiveMax maxLines"
  shows "applyPagination output maxLines offset = Inr output"
  using assms
  by (simp add: applyPagination_def paginationWindow_def Let_def joinLines_splitLines)

text \<open>
  Claim C5, as the code has it. When the input passes validation (and the report has
  fewer lines than a Go slice can hold), \<open>FullScanHandler\<close> returns a result with one text
  and a nil error, whatever the scanners report. The text is the window of the merged
  report that \<open>max_lines\<close> and \<open>offset\<close> select, behind the banner when the window is not
  the whole report; it is the merged report itself when the offset is zero and the report
  has no more lines than the limit. Each scanner that reports an error has in the merged
  report its summary line with the status \<open>FAILED\<close> and its section with the line
  \<open>ERROR:\<close> and the error's message, followed by its output under \<open>Output:\<close> when there is
  any. Whenever the handler returns an error, validation has failed and there is no
  result.
\<close>

theorem fullscan_survives_scanner_failures:
  "(validateInput lib input = None
      \<and> int (length (splitLines (mergedOutput lib sched date t input)))
           + effectiveMax (MaxLines input) \<le> maxInt
    \<longrightarrow> FullScanHandler lib sched date t req input =
          Inr (Some \<lparr>Content =
                 [(if 0 < Offset input
                      \<or> effectiveMax (MaxLines input)
                          < int (length (splitLines (mergedOutput lib sched date t input)))
                   then banner (i64 (Offset input + 1))
                          (i64 (Offset input + int (length
                             (take (nat (effectiveMax (MaxLines input)))
                                (if 0 < Offset input
                                    \<and> Offset input
                                        < int (length (splitLines (mergedOutput lib sched date t input)))
                                 then drop (nat (Offset input))
                                        (splitLines (mergedOutput lib sched date t input))
                                 else splitLines (mergedOutput lib sched date t input))))))
                          (int (length (splitLines (mergedOutput lib sched date t input))))
                   else [])
                  @ joinLines
                      (take (nat (effectiveMax (MaxLines input)))
                         (if 0 < Offset input
                             \<and> Offset input
                                 < int (length (splitLines (mergedOutput lib sched date t input)))
                          then drop (nat (Offset input))
                                 (splitLines (mergedOutput lib sched date t input))
                          else splitLines (mergedOutput lib sched date t input)))]\<rparr>,
               (), None))
   \<and> (validateInput lib input = None \<and> Offset input = 0
      \<and> int (length (splitLines (mergedOutput lib sched date t input)))
           \<le> effectiveMax (MaxLines input)
    \<longrightarrow> FullScanHandler lib sched date t req input =
          Inr (Some \<lparr>Content = [mergedOutput lib sched date t input]\<rparr>, (), None))
   \<and> (\<forall>sc e. sc \<in> set (scanners t) \<and> Error (Scan sc (scanParamsOf input)) = Some e
        \<longrightarrow> sublist (''  '' @ padName lib (Name sc) @ '': FAILED (''
                       @ fmtSeconds lib (Elapsed sc (scanParamsOf input)) @ ''s)'' @ [NL])
                    (mergedOutput lib sched date t input)
          \<and> sublist (separator @ [NL]
                      @ ''                    '' @ ToUpper lib (Name sc) @ '' RESULTS'' @ [NL]
                      @ separator @ [NL, NL]
                      @ ''ERROR: '' @ errorText e @ [NL, NL]
                      @ (if Output (Scan sc (scanParamsOf input)) \<noteq> []
                         then ''Output:'' @ [NL] @ Output (Scan sc (scanParamsOf input)) @ [NL]
                         else [])
                      @ [NL])
                    (mergedOutput lib sched date t input))
   \<and> (\<forall>result err. FullScanHandler lib sched date t req input = Inr (result, (), Some err)
        \<longrightarrow> validateInput lib input \<noteq> None \<and> result = None)"
proof (intro conjI allI impI)
  let ?out = "mergedOutput lib sched date t input"
  assume a: "validateInput lib input = None
      \<and> int (length (splitLines ?out)) + effectiveMax (MaxLines input) \<le> maxInt"
  then have "0 \<le> MaxLines input" "MaxLines input \<le> 100000"
    using validateInput_None [of lib input] by simp_all
  then have m: "0 \<le> effectiveMax (MaxLines input)"
    using effectiveMax_bounds [of "MaxLines input"] by simp
  from a have fits: "int (length (splitLines ?out)) + effectiveMax (MaxLines input) \<le> maxInt"
    by simp
  show "FullScanHandler lib sched date t req input =
          Inr (Some \<lparr>Content =
                 [(if 0 < Offset input
                      \<or> effectiveMax (MaxLines input) < int (length (splitLines ?out))
                   then banner (i64 (Offset input + 1))
                          (i64 (Offset input + int (length
                             (take (nat (effectiveMax (MaxLines input)))
                                (if 0 < Offset input
                                    \<and> Offset input < int (length (splitLines ?out))
                                 then drop (nat (Offset input)) (splitLines ?out)
                                 else splitLines ?out)))))
                          (int (length (splitLines ?out)))
                   else [])
                  @ joinLines
                      (take (nat (effectiveMax (MaxLines input)))
                         (if 0 < Offset input
                             \<and> Offset input < int (length (splitLines ?out))
                          then drop (nat (Offset input)) (splitLines ?out)
                          else splitLines ?out))]\<rparr>,
               (), None)"
    using a by (simp add: FullScanHandler_def applyPagination_in_range [OF m fits])
next
  let ?out = "mergedOutput lib sched date t input"
  assume a: "validateInput lib input = None \<and> Offset input = 0
      \<and> int (length (splitLines ?out)) \<le> effectiveMax (MaxLines input)"
  then have "applyPagination ?out (MaxLines input) (Offset input) = Inr ?out"
    by (intro applyPagination_whole) simp_all
  with a show "FullScanHandler lib sched date t req input =
          Inr (Some \<lparr>Content = [?out]\<rparr>, (), None)"
    by (simp add: FullScanHandler_def)
next
  fix sc e
  assume a: "sc \<in> set (scanners t) \<and> Error (Scan sc (scanParamsOf input)) = Some e"
  let ?p = "scanParamsOf input"
  let ?r = "\<lparr>rName = Name sc, rOutput = Output (Scan sc ?p),
             rDuration = Elapsed sc ?p, rError = Error (Scan sc ?p)\<rparr>"
  have mem: "?r \<in> set (fst (runScannersParallel sched t ?p))"
    using a by (intro record_in_results) simp
  have line: "summaryLine lib ?r = ''  '' @ padName lib (Name sc) @ '': FAILED (''
                       @ fmtSeconds lib (Elapsed sc ?p) @ ''s)'' @ [NL]"
    using a by (simp add: summaryLine_def status_def)
  have sect: "resultSection lib ?r = separator @ [NL]
                      @ ''                    '' @ ToUpper lib (Name sc) @ '' RESULTS'' @ [NL]
                      @ separator @ [NL, NL]
                      @ ''ERROR: '' @ errorText e @ [NL, NL]
                      @ (if Output (Scan sc ?p) \<noteq> []
                         then ''Output:'' @ [NL] @ Output (Scan sc ?p) @ [NL]
                         else [])
                      @ [NL]"
    using a by (simp add: resultSection_def)
  show "sublist (''  '' @ padName lib (Name sc) @ '': FAILED (''
                       @ fmtSeconds lib (Elapsed sc ?p) @ ''s)'' @ [NL])
                    (mergedOutput lib sched date t input)"
    using mergeResults_contains(1) [OF mem, of lib date "targetURLOf input"]
    unfolding line mergedOutput_def .
  show "sublist (separator @ [NL]
                      @ ''                    '' @ ToUpper lib (Name sc) @ '' RESULTS'' @ [NL]
                      @ separator @ [NL, NL]
                      @ ''ERROR: '' @ errorText e @ [NL, NL]
                      @ (if Output (Scan sc ?p) \<noteq> []
                         then ''Output:'' @ [NL] @ Output (Scan sc ?p) @ [NL]
                         else [])
                      @ [NL])
                    (mergedOutput lib sched date t input)"
    using mergeResults_contains(2) [OF mem, of lib date "targetURLOf input"]
    unfolding sect mergedOutput_def .
next
  fix result err
  assume "FullScanHandler lib sched date t req input = Inr (result, (), Some err)"
  then show "validateInput lib input \<noteq> None"
    by (auto simp: FullScanHandler_def split: option.splits sum.splits)
next
  fix result err
  assume "FullScanHandler lib sched date t req input = Inr (result, (), Some err)"
  then show "result = None"
    by (auto simp: FullScanHandler_def split: option.splits sum.splits)
qed

text \<open>
  The theorem at the setting of the test \<open>TestFullScanHandler_WithScannerError\<close>: one
  scanner that fails with partial output, and the default limit. The report has 27 lines,
  the handler returns all of it, and the line of the failed scanner is in it.
\<close>

theorem fullscan_survives_scanner_failures_witness:
  "FullScanHandler exampleLib [] ''Mon, 02 Jan 2006 15:04:05 UTC''
        \<lparr>scanners = [mockScanner ''mock1'' True ''partial output'' (Some (Err ''scan failed'')) 0]\<rparr>
        (Some \<lparr>Session = None\<rparr>)
        \<lparr>inHost = ''localhost'', inPort = 80, inVhost = [], MaxLines = 0, Offset = 0\<rparr>
      = Inr (Some \<lparr>Content =
               [mergedOutput exampleLib [] ''Mon, 02 Jan 2006 15:04:05 UTC''
                  \<lparr>scanners = [mockScanner ''mock1'' True ''partial output'' (Some (Err ''scan failed'')) 0]\<rparr>
                  \<lparr>inHost = ''localhost'', inPort = 80, inVhost = [], MaxLines = 0, Offset = 0\<rparr>]\<rparr>,
             (), None)
   \<and> sublist ''  mock1     : FAILED (0.00s)\<newline>''
        (mergedOutput exampleLib [] ''Mon, 02 Jan 2006 15:04:05 UTC''
           \<lparr>scanners = [mockScanner ''mock1'' True ''partial output'' (Some (Err ''scan failed'')) 0]\<rparr>
           \<lparr>inHost = ''localhost'', inPort = 80, inVhost = [], MaxLines = 0, Offset = 0\<rparr>)"
proof -
  let ?sc = "mockScanner ''mock1'' True ''partial output'' (Some (Err ''scan failed'')) 0"
  let ?t = "\<lparr>scanners = [?sc]\<rparr>"
  let ?input = "\<lparr>inHost = ''localhost'', inPort = 80, inVhost = [], MaxLines = 0, Offset = 0\<rparr>"
  let ?date = "''Mon, 02 Jan 2006 15:04:05 UTC''"
  have v: "validateInput exampleLib ?input = None"
    by (simp add: validateInput_def validationError_def minMax_def exampleLib_localhost)
  have small: "int (length (splitLines (mergedOutput exampleLib [] ?date ?t ?input)))
                 \<le> effectiveMax (MaxLines ?input)"
    by code_simp
  have sc: "?sc \<in> set (scanners ?t) \<and> Error (Scan ?sc (scanParamsOf ?input)) = Some (Err ''scan failed'')"
    by (simp add: mockScanner_def)
  have line: "''  '' @ padName exampleLib (Name ?sc) @ '': FAILED (''
                @ fmtSeconds exampleLib (Elapsed ?sc (scanParamsOf ?input)) @ ''s)'' @ [NL]
              = ''  mock1     : FAILED (0.00s)\<newline>''"
    by code_simp
  note main = fullscan_survives_scanner_failures
    [of exampleLib ?input "[]" ?date ?t "Some \<lparr>Session = None\<rparr>"]
  from main v small have "FullScanHandler exampleLib [] ?date ?t (Some \<lparr>Session = None\<rparr>) ?input
        = Inr (Some \<lparr>Content = [mergedOutput exampleLib [] ?date ?t ?input]\<rparr>, (), None)"
    by simp
  moreover from main sc have "sublist (''  '' @ padName exampleLib (Name ?sc) @ '': FAILED (''
                @ fmtSeconds exampleLib (Elapsed ?sc (scanParamsOf ?input)) @ ''s)'' @ [NL])
        (mergedOutput exampleLib [] ?date ?t ?input)"
    by blast
  ultimately show ?thesis
    unfolding line by (rule conjI)
qed

text \<open>
  Claim C5 as it is written fails: the same failing scanner and a request for the first
  three lines. The input passes validation and the handler returns a nil error, but the
  text returned is the banner and the first three lines of the header; the status
  \<open>FAILED\<close> and the message of the error are not in it.
\<close>

theorem fullscan_window_counterexample:
  "FullScanHandler exampleLib [] ''Mon, 02 Jan 2006 15:04:05 UTC''
        \<lparr>scanners = [mockScanner ''mock1'' True ''partial output'' (Some (Err ''scan failed'')) 0]\<rparr>
        (Some \<lparr>Session = None\<rparr>)
        \<lparr>inHost = ''localhost'', inPort = 80, inVhost = [], MaxLines = 3, Offset = 0\<rparr>
      = Inr (Some \<lparr>Content =
               [''[Showing lines 1-3 of 27 lines. Use offset parameter to view more.]\<newline>\<newline>''
                @ separator @ ''\<newline>                    FULL SECURITY SCAN REPORT\<newline>'' @ separator]\<rparr>,
             (), None)
   \<and> \<not> sublist ''FAILED''
        (''[Showing lines 1-3 of 27 lines. Use offset parameter to view more.]\<newline>\<newline>''
         @ separator @ ''\<newline>                    FULL SECURITY SCAN REPORT\<newline>'' @ separator)
   \<and> \<not> sublist ''scan failed''
        (''[Showing lines 1-3 of 27 lines. Use offset parameter to view more.]\<newline>\<newline>''
         @ separator @ ''\<newline>                    FULL SECURITY SCAN REPORT\<newline>'' @ separator)"
  by code_simp

section \<open>Properties of the logging interceptor\<close>

text \<open>
  Claim C4, as the code has it. Whenever the handler returns, the wrapped handler returns
  the same triple, and the record it builds has \<open>Success\<close> true exactly when the returned
  error is nil; its \<open>ErrorMessage\<close> is empty for a nil error and is the text of the error
  otherwise. Unless the handler returned an error whose text is empty, \<open>Success\<close> holds
  exactly when \<open>ErrorMessage\<close> is empty.
\<close>

theorem interceptor_record:
  assumes "handler (Some request) input = Inr (result, out, err)"
  shows "\<exists>exec.
     WrapToolHandler marshalInput marshalResult toolName handler duration (Some request) input
       = Inr ((result, out, err), exec)
     \<and> Success exec = (err = None)
     \<and> ErrorMessage exec = (case err of None \<Rightarrow> [] | Some e \<Rightarrow> errorText e)
     \<and> (err \<noteq> Some (Err []) \<longrightarrow> Success exec = (ErrorMessage exec = []))"
proof (cases err)
  case None
  then show ?thesis
    using assms by (cases result) (simp_all add: WrapToolHandler_def)
next
  case (Some e)
  then show ?thesis
    using assms by (cases e) (simp add: WrapToolHandler_def)
qed

text \<open>
  The theorem at the handler that \<open>Register\<close> wraps: \<open>FullScanHandler\<close>, called with a
  port out of range. The record is a failure with the text of the validation error.
\<close>

theorem interceptor_record_witness:
  "WrapToolHandler marshalPort marshalTexts ''full_scan''
     (FullScanHandler exampleLib [] ''Mon, 02 Jan 2006 15:04:05 UTC''
        \<lparr>scanners = [mockScanner ''mock1'' True ''findings A'' None 0]\<rparr>) 2500000
     (Some \<lparr>Session = Some ''s1''\<rparr>)
     \<lparr>inHost = ''localhost'', inPort = 70000, inVhost = [], MaxLines = 0, Offset = 0\<rparr>
   = Inr ((None, (), Some (Err (''validation error: '' @ fieldError ''Input'' (''Port'', ''max'')))),
          \<lparr>ID = 0, CreatedAt = 0, DeletedAt = None, SessionID = ''s1'', ToolName = ''full_scan'',
           InputJSON = ''{port:70000}'', OutputJSON = [],
           ErrorMessage = ''validation error: '' @ fieldError ''Input'' (''Port'', ''max''),
           DurationMs = 2, Success = False\<rparr>)"
proof -
  let ?input = "\<lparr>inHost = ''localhost'', inPort = 70000, inVhost = [], MaxLines = 0, Offset = 0\<rparr>"
  let ?h = "FullScanHandler exampleLib [] ''Mon, 02 Jan 2006 15:04:05 UTC''
              \<lparr>scanners = [mockScanner ''mock1'' True ''findings A'' None 0]\<rparr>"
  have h: "?h (Some \<lparr>Session = Some ''s1''\<rparr>) ?input
             = Inr (None, (), Some (Err (''validation error: '' @ fieldError ''Input'' (''Port'', ''max''))))"
    by (simp add: FullScanHandler_def validateInput_def validationError_def minMax_def
          exampleLib_localhost)
  from interceptor_record
    [where handler = "?h" and request = "\<lparr>Session = Some ''s1''\<rparr>" and input = "?input"
       and marshalInput = marshalPort and marshalResult = marshalTexts
       and toolName = "''full_scan''" and duration = 2500000, OF h]
  show ?thesis
    by (auto simp: WrapToolHandler_def h marshalPort_def itoa_def digits.simps Milliseconds_def)
qed

text \<open>
  Claim C4 as it is written fails: for a handler that returns an error whose text is
  empty, the record has \<open>Success = False\<close> and an empty \<open>ErrorMessage\<close>.
\<close>

theorem interceptor_record_counterexample:
  "WrapToolHandler marshalEmptyStruct marshalTexts ''full_scan'' emptyErrorHandler 1500000
     (Some \<lparr>Session = None\<rparr>) ()
   = Inr ((None, (), Some (Err [])),
          \<lparr>ID = 0, CreatedAt = 0, DeletedAt = None, SessionID = [], ToolName = ''full_scan'',
           InputJSON = ''{}'', OutputJSON = [], ErrorMessage = [], DurationMs = 1,
           Success = False\<rparr>)"
  by (simp add: WrapToolHandler_def emptyErrorHandler_def marshalEmptyStruct_def Milliseconds_def)

section \<open>Properties of the ledger\<close>

lemma ID_markDeleted [simp]: "ID (markDeleted now ident r) = ID r"
  by (simp add: markDeleted_def)

lemma live_markDeleted: "live (markDeleted now ident r) = (live r \<and> ID r \<noteq> ident)"
  by (auto simp: markDeleted_def live_def)

lemma markDeleted_dead [simp]: "\<not> live r \<Longrightarrow> markDeleted now ident r = r"
  by (simp add: markDeleted_def)

lemma filter_live_markDeleted_absent:
  "ident \<notin> ID ` set rs \<Longrightarrow> filter live (map (markDeleted now ident) rs) = filter live rs"
  by (induction rs) (auto simp: markDeleted_def)

lemma count_after_delete:
  assumes "distinct (map ID rs)" "r \<in> set rs" "live r"
  shows "Suc (length (filter live (map (markDeleted now (ID r)) rs))) = length (filter live rs)"
  using assms
proof (induction rs)
  case Nil
  then show ?case by simp
next
  case (Cons a rs)
  show ?case
  proof (cases "a = r")
    case True
    then have "ID r \<notin> ID ` set rs" using Cons.prems(1) by auto
    then have "filter live (map (markDeleted now (ID r)) rs) = filter live rs"
      by (rule filter_live_markDeleted_absent)
    then show ?thesis
      using True Cons.prems(3) by (simp add: live_markDeleted)
  next
    case False
    then have mem: "r \<in> set rs" using Cons.prems(2) by simp
    then have "ID a \<noteq> ID r" using Cons.prems(1) by force
    moreover have "Suc (length (filter live (map (markDeleted now (ID r)) rs))) = length (filter live rs)"
      using Cons.IH Cons.prems mem by simp
    ultimately show ?thesis
      by (simp add: live_markDeleted)
  qed
qed

lemma unique_row:
  assumes "distinct (map ID rs)" "r \<in> set rs"
  shows "filter (\<lambda>x. ID x = ID r) rs = [r]"
  using assms
proof (induction rs)
  case Nil
  then show ?case by simp
next
  case (Cons a rs)
  show ?case
  proof (cases "a = r")
    case True
    then have "ID r \<notin> ID ` set rs" using Cons.prems(1) by auto
    then have "filter (\<lambda>x. ID x = ID r) rs = []"
      by (auto simp: filter_empty_conv image_iff)
    with True show ?thesis by simp
  next
    case False
    then have mem: "r \<in> set rs" using Cons.prems(2) by simp
    then have "ID a \<noteq> ID r" using Cons.prems(1) by force
    then show ?thesis using Cons.IH Cons.prems(1) mem by simp
  qed
qed

lemma set_orderBy [simp]: "set (orderByCreatedAtDesc rs) = set rs"
  by (simp add: orderByCreatedAtDesc_def)

lemma reads_exclude:
  assumes "\<not> closed s" "filter (\<lambda>r. ID r = ident) (rows s) = [d]" "\<not> live d"
  shows "GetToolExecution s ident = Inl ErrRecordNotFound"
    and "ident \<notin> ID ` set (fst (GetToolExecutions s limit offset))"
    and "ident \<notin> ID ` set (fst (GetToolExecutionsBySession s sessionID))"
    and "ident \<notin> ID ` set (fst (GetToolExecutionsByTool s toolName limit))"
proof -
  have dead: "\<not> live r" if "r \<in> set (rows s)" "ID r = ident" for r
  proof -
    have "r \<in> set (filter (\<lambda>r. ID r = ident) (rows s))" using that by simp
    then show ?thesis using assms(2,3) by simp
  qed
  then have none: "filter (\<lambda>r. ID r = ident \<and> live r) (rows s) = []"
    by (auto simp: filter_empty_conv)
  show "GetToolExecution s ident = Inl ErrRecordNotFound"
    using assms(1) by (simp add: GetToolExecution_def none)
  have a: "ident \<notin> ID ` set (filter live (rows s))"
    using dead by auto
  have b: "ident \<notin> ID ` set (filter (\<lambda>r. P r \<and> live r) (rows s))" for P
    using dead by auto
  show "ident \<notin> ID ` set (fst (GetToolExecutions s limit offset))"
    using a by (auto simp: GetToolExecutions_def Let_def dest!: in_set_takeD in_set_dropD)
  show "ident \<notin> ID ` set (fst (GetToolExecutionsBySession s sessionID))"
    using b [of "\<lambda>r. SessionID r = sessionID"] by (auto simp: GetToolExecutionsBySession_def)
  show "ident \<notin> ID ` set (fst (GetToolExecutionsByTool s toolName limit))"
    using b [of "\<lambda>r. ToolName r = toolName"]
    by (auto simp: GetToolExecutionsByTool_def Let_def dest!: in_set_takeD)
qed

lemma filter_map_dead:
  assumes "filter (\<lambda>r. ID r = ident) rs = [d]" "\<not> live d" "\<And>r. ID (g r) = ID r"
    and "\<And>r. \<not> live r \<Longrightarrow> g r = r"
  shows "filter (\<lambda>r. ID r = ident) (map g rs) = [d]"
proof -
  have "filter (\<lambda>r. ID r = ident) (map g rs) = map g (filter (\<lambda>r. ID r = ident) rs)"
    by (simp add: filter_map comp_def assms(3))
  then show ?thesis using assms(1,2,4) by simp
qed

lemma retired_applyOp:
  assumes "retired ident d s"
  shows "retired ident d (applyOp op s)"
proof (cases op)
  case (OpCreate now exec)
  have isopen: "\<not> closed s" and bound: "list_all (\<lambda>r. ID r \<le> seq s) (rows s)"
    and only: "filter (\<lambda>r. ID r = ident) (rows s) = [d]" and dead: "\<not> live d"
    using assms by (simp_all add: retired_def)
  have "d \<in> set (filter (\<lambda>r. ID r = ident) (rows s))" using only by simp
  then have dmem: "d \<in> set (rows s)" "ID d = ident" by simp_all
  then have le: "ident \<le> seq s" using bound by (auto simp: list_all_iff)
  show ?thesis
  proof (cases "ID exec = 0")
    case True
    have "Suc (seq s) \<noteq> ident" using le by simp
    then show ?thesis
      using True isopen bound only dead unfolding OpCreate retired_def
      by (auto simp: CreateToolExecution_def Let_def list_all_iff set_insort_key filter_insort_triv)
  next
    case False
    show ?thesis
    proof (cases "ID exec \<in> ID ` set (rows s)")
      case True
      then show ?thesis
        using False assms unfolding OpCreate by (simp add: CreateToolExecution_def Let_def)
    next
      case notin: False
      then have "ID exec \<noteq> ident" using dmem by auto
      then show ?thesis
        using False notin isopen bound only dead unfolding OpCreate retired_def
        by (auto simp: CreateToolExecution_def Let_def list_all_iff set_insort_key filter_insort_triv)
    qed
  qed
next
  case (OpDelete now i)
  from assms show ?thesis
    unfolding OpDelete retired_def
    by (auto simp: DeleteToolExecution_def list_all_iff intro!: filter_map_dead)
next
  case (OpDeleteAll now)
  from assms show ?thesis
    unfolding OpDeleteAll retired_def
    by (auto simp: DeleteAllToolExecutions_def list_all_iff intro!: filter_map_dead)
qed

lemma retired_applyOps: "retired ident d s \<Longrightarrow> retired ident d (applyOps ops s)"
  by (induction ops arbitrary: s) (simp_all add: retired_applyOp)

lemma distinct_map_insort_key:
  "distinct (map g (insort_key f x xs)) = (g x \<notin> g ` set xs \<and> distinct (map g xs))"
  by (induction xs) (auto simp: set_insort_key)

lemma wellFormed_empty: "wellFormed emptyStorage"
  by (simp add: wellFormed_def emptyStorage_def)

lemma wellFormed_applyOp:
  assumes "wellFormed s"
  shows "wellFormed (applyOp op s)"
proof (cases op)
  case (OpCreate now exec)
  have fresh: "Suc (seq s) \<notin> ID ` set (rows s)"
    using assms by (fastforce simp: wellFormed_def list_all_iff)
  from assms fresh show ?thesis
    unfolding OpCreate wellFormed_def
    by (auto simp: CreateToolExecution_def Let_def list_all_iff set_insort_key
          distinct_map_insort_key sorted_insort_key image_iff)
next
  case (OpDelete now i)
  have "map ID (map (markDeleted now i) (rows s)) = map ID (rows s)"
    by simp
  with assms show ?thesis
    unfolding OpDelete wellFormed_def
    by (auto simp: DeleteToolExecution_def list_all_iff simp del: map_map)
next
  case (OpDeleteAll now)
  have "map ID (map (\<lambda>r. if live r then r\<lparr>DeletedAt := Some now\<rparr> else r) (rows s)) = map ID (rows s)"
    by (simp add: comp_def if_distrib [of ID])
  with assms show ?thesis
    unfolding OpDeleteAll wellFormed_def
    by (auto simp: DeleteAllToolExecutions_def list_all_iff simp del: map_map)
qed

lemma wellFormed_applyOps: "wellFormed s \<Longrightarrow> wellFormed (applyOps ops s)"
  by (induction ops arbitrary: s) (simp_all add: wellFormed_applyOp)

lemma total_count:
  "\<not> closed s \<Longrightarrow> fst (snd (GetToolExecutions s limit offset)) = int (length (filter live (rows s)))"
  by (simp add: GetToolExecutions_def Let_def)

text \<open>
  Claim C9. In a well-formed open store, let \<open>r\<close> be a live record, which \<open>GetToolExecution\<close>
  finds. Then \<open>DeleteToolExecution\<close> on its identifier succeeds; afterwards
  \<open>GetToolExecution\<close> reports \<open>record not found\<close> and the total that \<open>GetToolExecutions\<close>
  returns is smaller by exactly one. After any further sequence of creations and
  deletions, the identifier is still not found, occurs in the result of none of the three
  list queries, and the only row that carries it is the record that was deleted: it is
  never given to another record.
\<close>

theorem soft_delete_excludes:
  assumes "wellFormed s" and "\<not> closed s" and "r \<in> set (rows s)" and "live r"
  shows "GetToolExecution s (ID r) = Inr r
    \<and> (\<exists>s'. DeleteToolExecution now s (ID r) = (s', None)
          \<and> GetToolExecution s' (ID r) = Inl ErrRecordNotFound
          \<and> fst (snd (GetToolExecutions s' limit offset))
              = fst (snd (GetToolExecutions s limit offset)) - 1
          \<and> 0 < fst (snd (GetToolExecutions s limit offset))
          \<and> (\<forall>ops limit' offset' sessionID toolName.
                GetToolExecution (applyOps ops s') (ID r) = Inl ErrRecordNotFound
              \<and> ID r \<notin> ID ` set (fst (GetToolExecutions (applyOps ops s') limit' offset'))
              \<and> ID r \<notin> ID ` set (fst (GetToolExecutionsBySession (applyOps ops s') sessionID))
              \<and> ID r \<notin> ID ` set (fst (GetToolExecutionsByTool (applyOps ops s') toolName limit'))
              \<and> filter (\<lambda>x. ID x = ID r) (rows (applyOps ops s'))
                  = [r\<lparr>DeletedAt := Some now\<rparr>]))"
proof -
  let ?s' = "s\<lparr>rows := map (markDeleted now (ID r)) (rows s)\<rparr>"
  let ?d = "r\<lparr>DeletedAt := Some now\<rparr>"
  have dist: "distinct (map ID (rows s))" and bound: "list_all (\<lambda>x. ID x \<le> seq s) (rows s)"
    using assms(1) by (auto simp: wellFormed_def list_all_iff)
  have only: "filter (\<lambda>x. ID x = ID r) (rows s) = [r]"
    using dist assms(3) by (rule unique_row)
  have "filter live (filter (\<lambda>x. ID x = ID r) (rows s)) = [r]"
    unfolding only using assms(4) by simp
  then have "filter (\<lambda>x. ID x = ID r \<and> live x) (rows s) = [r]"
    by (simp only: filter_filter)
  then have before: "GetToolExecution s (ID r) = Inr r"
    using assms(2) by (simp add: GetToolExecution_def)
  have del: "DeleteToolExecution now s (ID r) = (?s', None)"
    using assms(2) by (simp add: DeleteToolExecution_def)
  have "filter (\<lambda>x. ID x = ID r) (map (markDeleted now (ID r)) (rows s))
          = map (markDeleted now (ID r)) (filter (\<lambda>x. ID x = ID r) (rows s))"
    by (simp add: filter_map comp_def)
  then have only': "filter (\<lambda>x. ID x = ID r) (rows ?s') = [?d]"
    using only assms(4) by (simp add: markDeleted_def)
  have ret: "retired (ID r) ?d ?s'"
    using assms(2) bound only' by (simp add: retired_def list_all_iff live_def)
  have cnt: "Suc (length (filter live (rows ?s'))) = length (filter live (rows s))"
    using count_after_delete [OF dist assms(3,4)] by simp
  have n: "int (length (filter live (rows ?s'))) = int (length (filter live (rows s))) - 1"
    and p: "0 < int (length (filter live (rows s)))"
    using cnt by linarith+
  have total: "fst (snd (GetToolExecutions ?s' limit offset))
              = fst (snd (GetToolExecutions s limit offset)) - 1"
  proof -
    have "\<not> closed ?s'" using assms(2) by simp
    then have "fst (snd (GetToolExecutions ?s' limit offset)) = int (length (filter live (rows ?s')))"
      by (rule total_count)
    moreover have "fst (snd (GetToolExecutions s limit offset)) = int (length (filter live (rows s)))"
      using assms(2) by (rule total_count)
    ultimately show ?thesis using n by simp
  qed
  have pos: "0 < fst (snd (GetToolExecutions s limit offset))"
    using total_count [OF assms(2), of limit offset] p by simp
  have later: "GetToolExecution (applyOps ops ?s') (ID r) = Inl ErrRecordNotFound
              \<and> ID r \<notin> ID ` set (fst (GetToolExecutions (applyOps ops ?s') limit' offset'))
              \<and> ID r \<notin> ID ` set (fst (GetToolExecutionsBySession (applyOps ops ?s') sessionID))
              \<and> ID r \<notin> ID ` set (fst (GetToolExecutionsByTool (applyOps ops ?s') toolName limit'))
              \<and> filter (\<lambda>x. ID x = ID r) (rows (applyOps ops ?s')) = [?d]"
    for ops limit' offset' sessionID toolName
  proof -
    have "retired (ID r) ?d (applyOps ops ?s')"
      using ret by (rule retired_applyOps)
    then have a: "\<not> closed (applyOps ops ?s')"
        and b: "filter (\<lambda>x. ID x = ID r) (rows (applyOps ops ?s')) = [?d]"
        and c: "\<not> live ?d"
      by (simp_all add: retired_def)
    show ?thesis
      using reads_exclude [OF a b c] b by simp
  qed
  have after: "GetToolExecution ?s' (ID r) = Inl ErrRecordNotFound"
    using later [of "[]"] by simp
  have "\<exists>s'. DeleteToolExecution now s (ID r) = (s', None)
          \<and> GetToolExecution s' (ID r) = Inl ErrRecordNotFound
          \<and> fst (snd (GetToolExecutions s' limit offset))
              = fst (snd (GetToolExecutions s limit offset)) - 1
          \<and> 0 < fst (snd (GetToolExecutions s limit offset))
          \<and> (\<forall>ops limit' offset' sessionID toolName.
                GetToolExecution (applyOps ops s') (ID r) = Inl ErrRecordNotFound
              \<and> ID r \<notin> ID ` set (fst (GetToolExecutions (applyOps ops s') limit' offset'))
              \<and> ID r \<notin> ID ` set (fst (GetToolExecutionsBySession (applyOps ops s') sessionID))
              \<and> ID r \<notin> ID ` set (fst (GetToolExecutionsByTool (applyOps ops s') toolName limit'))
              \<and> filter (\<lambda>x. ID x = ID r) (rows (applyOps ops s'))
                  = [r\<lparr>DeletedAt := Some now\<rparr>])"
  proof (intro exI [of _ ?s'] conjI allI)
    show "DeleteToolExecution now s (ID r) = (?s', None)" by (rule del)
    show "GetToolExecution ?s' (ID r) = Inl ErrRecordNotFound" by (rule after)
    show "fst (snd (GetToolExecutions ?s' limit offset))
              = fst (snd (GetToolExecutions s limit offset)) - 1" by (rule total)
    show "0 < fst (snd (GetToolExecutions s limit offset))" by (rule pos)
  qed (simp_all add: later)
  with before show ?thesis by (rule conjI)
qed

text \<open>
  The theorem at the store that holds one execution, created at time 5 and deleted at
  time 9.
\<close>

theorem soft_delete_excludes_witness:
  "GetToolExecution (applyOps [OpCreate 5 niktoExec] emptyStorage) 1
     = Inr (niktoExec\<lparr>ID := 1, CreatedAt := 5\<rparr>)
   \<and> GetToolExecution (applyOps [OpCreate 5 niktoExec, OpDelete 9 1] emptyStorage) 1
     = Inl ErrRecordNotFound
   \<and> fst (snd (GetToolExecutions (applyOps [OpCreate 5 niktoExec, OpDelete 9 1] emptyStorage) 10 0))
     = 0"
proof -
  let ?s = "applyOps [OpCreate 5 niktoExec] emptyStorage"
  let ?r = "niktoExec\<lparr>ID := 1, CreatedAt := 5\<rparr>"
  have s: "?s = \<lparr>rows = [?r], seq = 1, closed = False\<rparr>"
    by (simp add: CreateToolExecution_def emptyStorage_def niktoExec_def Let_def)
  have wf: "wellFormed ?s" and op: "\<not> closed ?s" and mem: "?r \<in> set (rows ?s)" and lv: "live ?r"
    unfolding s by (simp_all add: wellFormed_def niktoExec_def live_def)
  have id: "ID ?r = 1" by simp
  have total: "fst (snd (GetToolExecutions ?s 10 0)) = 1"
    unfolding s by (simp add: GetToolExecutions_def live_def niktoExec_def)
  from soft_delete_excludes [OF wf op mem lv, of 9 10 0]
  show ?thesis
    unfolding id total by (auto simp: s)
qed

lemma sorted_wrt_take: "sorted_wrt P xs \<Longrightarrow> sorted_wrt P (take n xs)"
  by (metis append_take_drop_id sorted_wrt_append)

lemma sorted_wrt_drop: "sorted_wrt P xs \<Longrightarrow> sorted_wrt P (drop n xs)"
  by (metis append_take_drop_id sorted_wrt_append)

text \<open>
  Inserting a row whose identifier is below all those present keeps the order
  "later creation time first, and the smaller identifier first among equal times".
\<close>

lemma insort_newest_first:
  assumes "sorted_wrt (\<lambda>a b. CreatedAt b < CreatedAt a
                          \<or> (CreatedAt a = CreatedAt b \<and> ID a < ID b)) ys"
      and "\<forall>y \<in> set ys. ID x < ID y"
  shows "sorted_wrt (\<lambda>a b. CreatedAt b < CreatedAt a
                          \<or> (CreatedAt a = CreatedAt b \<and> ID a < ID b))
           (insort_key (\<lambda>r. - CreatedAt r) x ys)"
  using assms
proof (induction ys)
  case Nil
  then show ?case by simp
next
  case (Cons y ys)
  show ?case
  proof (cases "CreatedAt y \<le> CreatedAt x")
    case True
    have "CreatedAt z < CreatedAt x \<or> (CreatedAt x = CreatedAt z \<and> ID x < ID z)"
      if "z \<in> set (y # ys)" for z
    proof -
      have "CreatedAt z \<le> CreatedAt y"
        using that Cons.prems(1) by auto
      moreover have "ID x < ID z"
        using that Cons.prems(2) by auto
      ultimately show ?thesis using True by linarith
    qed
    then show ?thesis
      using True Cons.prems(1) by simp
  next
    case False
    have "sorted_wrt (\<lambda>a b. CreatedAt b < CreatedAt a
                          \<or> (CreatedAt a = CreatedAt b \<and> ID a < ID b))
           (insort_key (\<lambda>r. - CreatedAt r) x ys)"
      using Cons by simp
    then show ?thesis
      using False Cons.prems(1) by (auto simp: set_insort_key)
  qed
qed

lemma orderBy_newest_first:
  assumes "sorted (map ID rs)" and "distinct (map ID rs)"
  shows "sorted_wrt (\<lambda>a b. CreatedAt b < CreatedAt a
                          \<or> (CreatedAt a = CreatedAt b \<and> ID a < ID b))
           (orderByCreatedAtDesc rs)"
  using assms unfolding orderByCreatedAtDesc_def
proof (induction rs)
  case Nil
  then show ?case by simp
next
  case (Cons r rs)
  have "\<forall>y \<in> set (sort_key (\<lambda>r. - CreatedAt r) rs). ID r < ID y"
    using Cons.prems by (auto simp: le_less image_iff)
  moreover have "sorted_wrt (\<lambda>a b. CreatedAt b < CreatedAt a
                          \<or> (CreatedAt a = CreatedAt b \<and> ID a < ID b))
           (sort_key (\<lambda>r. - CreatedAt r) rs)"
    using Cons by simp
  ultimately show ?case
    by (simp add: insort_newest_first)
qed

lemma orderBy_filter_newest_first:
  assumes "wellFormed s"
  shows "sorted_wrt (\<lambda>a b. CreatedAt b < CreatedAt a
                          \<or> (CreatedAt a = CreatedAt b \<and> ID a < ID b))
           (orderByCreatedAtDesc (filter P (rows s)))"
proof -
  have "sorted (map ID (filter P (rows s)))"
    using assms by (simp add: wellFormed_def sorted_filter)
  moreover have "distinct (map ID (filter P (rows s)))"
    using assms by (simp add: wellFormed_def distinct_map_filter)
  ultimately show ?thesis by (rule orderBy_newest_first)
qed

lemma mset_orderBy: "mset (orderByCreatedAtDesc rs) = mset rs"
  by (simp add: orderByCreatedAtDesc_def)

text \<open>
  Claim C8, as the code has it. In a well-formed open store, \<open>GetToolExecutions\<close> without
  limit and offset returns exactly the records that are not deleted, the later creation
  time first, and among records with the same creation time the smaller identifier first:
  the query names no second sort key, and the rows come in the order of the table. A
  positive offset drops that many records from the front of this list and a positive
  limit keeps that many of what is left. The queries by session and by tool return, in
  the same order, exactly the records that are not deleted and have the session or the
  tool asked for, the latter cut to the limit.
\<close>

theorem list_newest_first:
  assumes "wellFormed s" and "\<not> closed s"
  shows "mset (fst (GetToolExecutions s 0 0)) = mset (filter live (rows s))
   \<and> sorted_wrt (\<lambda>a b. CreatedAt b < CreatedAt a \<or> (CreatedAt a = CreatedAt b \<and> ID a < ID b))
       (fst (GetToolExecutions s 0 0))
   \<and> fst (GetToolExecutions s limit offset)
       = (if 0 < limit then take (nat limit) else id)
           ((if 0 < offset then drop (nat offset) else id) (fst (GetToolExecutions s 0 0)))
   \<and> sorted_wrt (\<lambda>a b. CreatedAt b < CreatedAt a \<or> (CreatedAt a = CreatedAt b \<and> ID a < ID b))
       (fst (GetToolExecutions s limit offset))
   \<and> mset (fst (GetToolExecutionsBySession s sessionID))
       = mset (filter (\<lambda>r. SessionID r = sessionID \<and> live r) (rows s))
   \<and> sorted_wrt (\<lambda>a b. CreatedAt b < CreatedAt a \<or> (CreatedAt a = CreatedAt b \<and> ID a < ID b))
       (fst (GetToolExecutionsBySession s sessionID))
   \<and> mset (fst (GetToolExecutionsByTool s toolName 0))
       = mset (filter (\<lambda>r. ToolName r = toolName \<and> live r) (rows s))
   \<and> fst (GetToolExecutionsByTool s toolName limit)
       = (if 0 < limit then take (nat limit) else id) (fst (GetToolExecutionsByTool s toolName 0))
   \<and> sorted_wrt (\<lambda>a b. CreatedAt b < CreatedAt a \<or> (CreatedAt a = CreatedAt b \<and> ID a < ID b))
       (fst (GetToolExecutionsByTool s toolName limit))"
proof -
  note ord = orderBy_filter_newest_first [OF assms(1)]
  have all: "fst (GetToolExecutions s 0 0) = orderByCreatedAtDesc (filter live (rows s))"
    using assms(2) by (simp add: GetToolExecutions_def)
  have page: "fst (GetToolExecutions s limit offset)
       = (if 0 < limit then take (nat limit) else id)
           ((if 0 < offset then drop (nat offset) else id)
              (orderByCreatedAtDesc (filter live (rows s))))"
    using assms(2) by (simp add: GetToolExecutions_def Let_def)
  have session: "fst (GetToolExecutionsBySession s sessionID)
       = orderByCreatedAtDesc (filter (\<lambda>r. SessionID r = sessionID \<and> live r) (rows s))"
    using assms(2) by (simp add: GetToolExecutionsBySession_def)
  have tool0: "fst (GetToolExecutionsByTool s toolName 0)
       = orderByCreatedAtDesc (filter (\<lambda>r. ToolName r = toolName \<and> live r) (rows s))"
    using assms(2) by (simp add: GetToolExecutionsByTool_def)
  have tool: "fst (GetToolExecutionsByTool s toolName limit)
       = (if 0 < limit then take (nat limit) else id)
           (orderByCreatedAtDesc (filter (\<lambda>r. ToolName r = toolName \<and> live r) (rows s)))"
    using assms(2) by (simp add: GetToolExecutionsByTool_def Let_def)
  show ?thesis
    unfolding page tool all session tool0
    by (simp add: mset_orderBy ord sorted_wrt_take sorted_wrt_drop)
qed

text \<open>
  The theorem at a store with four executions, the second and the third created at the
  same instant and the fourth deleted: the list holds the three records left, the two of
  time 6 before the one of time 5, and of those two the identifier 2 before 3.
\<close>

theorem list_newest_first_witness:
  "mset (fst (GetToolExecutions
      (applyOps [OpCreate 5 niktoExec, OpCreate 6 niktoExec, OpCreate 6 niktoExec,
                 OpCreate 7 niktoExec, OpDelete 8 4] emptyStorage) 0 0))
     = mset (filter live (rows
      (applyOps [OpCreate 5 niktoExec, OpCreate 6 niktoExec, OpCreate 6 niktoExec,
                 OpCreate 7 niktoExec, OpDelete 8 4] emptyStorage)))
   \<and> map ID (fst (GetToolExecutions
      (applyOps [OpCreate 5 niktoExec, OpCreate 6 niktoExec, OpCreate 6 niktoExec,
                 OpCreate 7 niktoExec, OpDelete 8 4] emptyStorage) 0 0)) = [2, 3, 1]"
proof -
  let ?s = "applyOps [OpCreate 5 niktoExec, OpCreate 6 niktoExec, OpCreate 6 niktoExec,
                 OpCreate 7 niktoExec, OpDelete 8 4] emptyStorage"
  have wf: "wellFormed ?s"
    by (rule wellFormed_applyOps) (rule wellFormed_empty)
  have op: "\<not> closed ?s"
    by code_simp
  have ids: "map ID (fst (GetToolExecutions ?s 0 0)) = [2, 3, 1]"
    by code_simp
  from list_newest_first [OF wf op, of 0 0] ids show ?thesis
    by (simp only: simp_thms)
qed

text \<open>
  Claim C8 as it is written fails: two records created at the same instant are listed
  with the identifiers 1 and 2 in this order, so the order is neither strictly descending
  in time nor descending in the identifier among equal times.
\<close>

theorem list_tie_counterexample:
  "map ID (fst (GetToolExecutions
        (applyOps [OpCreate 5 niktoExec, OpCreate 5 niktoExec] emptyStorage) 2 0)) = [1, 2]
   \<and> map CreatedAt (fst (GetToolExecutions
        (applyOps [OpCreate 5 niktoExec, OpCreate 5 niktoExec] emptyStorage) 2 0)) = [5, 5]"
  by (simp add: GetToolExecutions_def CreateToolExecution_def emptyStorage_def niktoExec_def
        orderByCreatedAtDesc_def live_def Let_def)

section \<open>Properties of the history tool\<close>

lemma sublist_joinLines: "l \<in> set ls \<Longrightarrow> sublist l (joinLines ls)"
proof (induction ls rule: joinLines.induct)
  case 1
  then show ?case by simp
next
  case (2 l')
  then show ?case by simp
next
  case (3 l' v va)
  show ?case
  proof (cases "l = l'")
    case True
    then show ?thesis by simp
  next
    case False
    with 3 have "sublist l (joinLines (v # va))" by simp
    then have "sublist l ((l' @ [NL]) @ joinLines (v # va) @ [])"
      unfolding sublist_def by (metis append.assoc)
    then show ?thesis by simp
  qed
qed

lemma list_length_le_limit:
  "0 < limit \<Longrightarrow> length (fst (GetToolExecutions store limit offset)) \<le> nat limit"
  by (simp add: GetToolExecutions_def Let_def)

text \<open>
  Claim C10. For the action \<open>list\<close> with \<open>Limit = 0\<close> (and a valid offset) the handler
  queries the ledger with the limit 10 and returns what that query gives, reporting the
  limit 10; the query returns at most ten executions. An input with \<open>Limit\<close> above 100 is
  rejected: the handler returns a validation error that names the tag \<open>max\<close> of the field
  \<open>Limit\<close>, and leaves the store as it was.
\<close>

theorem history_list_limit:
  "(Action input = ''list'' \<and> Limit input = 0 \<and> 0 \<le> hOffset input \<longrightarrow>
      HistoryHandler enc now store input =
        ((case GetToolExecutions store 10 (hOffset input) of
            (executions, totalCount, None) \<Rightarrow>
              (Some \<lparr>Content = [marshalList enc totalCount 10 (hOffset input) executions]\<rparr>, None)
          | (executions, totalCount, Some err) \<Rightarrow>
              (None, Some (Err (''failed to list executions: '' @ errorText err)))), store)
      \<and> length (fst (GetToolExecutions store 10 (hOffset input))) \<le> 10)
   \<and> (100 < Limit input \<longrightarrow>
        (\<exists>msg. HistoryHandler enc now store input
                 = ((None, Some (Err (''validation error: '' @ msg))), store)
             \<and> sublist (fieldError ''Input'' (''Limit'', ''max'')) msg))"
proof (intro conjI impI)
  assume a: "Action input = ''list'' \<and> Limit input = 0 \<and> 0 \<le> hOffset input"
  then have v: "validateHistoryInput input = None"
    by (simp add: validateHistoryInput_def validationError_def minMax_def)
  show "HistoryHandler enc now store input =
        ((case GetToolExecutions store 10 (hOffset input) of
            (executions, totalCount, None) \<Rightarrow>
              (Some \<lparr>Content = [marshalList enc totalCount 10 (hOffset input) executions]\<rparr>, None)
          | (executions, totalCount, Some err) \<Rightarrow>
              (None, Some (Err (''failed to list executions: '' @ errorText err)))), store)"
    using a v by (simp add: HistoryHandler_def split: prod.splits option.splits)
  show "length (fst (GetToolExecutions store 10 (hOffset input))) \<le> 10"
    using list_length_le_limit [of 10 store "hOffset input"] by simp
next
  assume big: "100 < Limit input"
  let ?fails = "(if Action input = [] then [(''Action'', ''required'')]
         else if Action input \<notin> {''list'', ''get'', ''delete'', ''clear''}
         then [(''Action'', ''oneof'')] else [])
        @ minMax ''Limit'' 0 100 (Limit input)
        @ (if hOffset input < 0 then [(''Offset'', ''min'')] else [])"
  have mem: "(''Limit'', ''max'') \<in> set ?fails"
    using big by (simp add: minMax_def)
  then have ne: "?fails \<noteq> []" by auto
  let ?msg = "joinLines (map (fieldError ''Input'') ?fails)"
  have v: "validateHistoryInput input = Some (Err ?msg)"
    using ne unfolding validateHistoryInput_def validationError_def by simp
  have "fieldError ''Input'' (''Limit'', ''max'') \<in> set (map (fieldError ''Input'') ?fails)"
    using mem unfolding set_map by (rule imageI)
  then have sub: "sublist (fieldError ''Input'' (''Limit'', ''max'')) ?msg"
    by (rule sublist_joinLines)
  have "HistoryHandler enc now store input = ((None, Some (Err (''validation error: '' @ ?msg))), store)"
    using v by (simp add: HistoryHandler_def)
  with sub show "\<exists>msg. HistoryHandler enc now store input
                 = ((None, Some (Err (''validation error: '' @ msg))), store)
             \<and> sublist (fieldError ''Input'' (''Limit'', ''max'')) msg"
    by blast
qed

lemma eleven_listed:
  "GetToolExecutions elevenExecutions 10 0 =
     (map (\<lambda>i. niktoExec\<lparr>ID := i, CreatedAt := int i\<rparr>) [11, 10, 9, 8, 7, 6, 5, 4, 3, 2], 11, None)"
  by code_simp

text \<open>
  The theorem at a store with eleven executions: the ten newest are listed; and the
  rejection of \<open>Limit = 101\<close>.
\<close>

theorem history_list_limit_witness:
  "fst (HistoryHandler exampleEncoders 20 elevenExecutions
          \<lparr>Action = ''list'', hID = 0, Limit = 0, hOffset = 0\<rparr>)
     = (Some \<lparr>Content = [''total=11 limit=10 offset=0 ids= 11 10 9 8 7 6 5 4 3 2'']\<rparr>, None)
   \<and> fst (HistoryHandler exampleEncoders 20 elevenExecutions
          \<lparr>Action = ''list'', hID = 0, Limit = 101, hOffset = 0\<rparr>)
     = (None, Some (Err (''validation error: '' @ fieldError ''Input'' (''Limit'', ''max''))))"
proof -
  have a: "fst (HistoryHandler exampleEncoders 20 elevenExecutions
          \<lparr>Action = ''list'', hID = 0, Limit = 0, hOffset = 0\<rparr>)
     = (Some \<lparr>Content = [''total=11 limit=10 offset=0 ids= 11 10 9 8 7 6 5 4 3 2'']\<rparr>, None)"
    using history_list_limit [of "\<lparr>Action = ''list'', hID = 0, Limit = 0, hOffset = 0\<rparr>"
        exampleEncoders 20 elevenExecutions]
    by (simp add: eleven_listed exampleEncoders_def itoa_def digits.simps)
  have b: "fst (HistoryHandler exampleEncoders 20 elevenExecutions
          \<lparr>Action = ''list'', hID = 0, Limit = 101, hOffset = 0\<rparr>)
     = (None, Some (Err (''validation error: '' @ fieldError ''Input'' (''Limit'', ''max''))))"
    by (simp add: HistoryHandler_def validateHistoryInput_def validationError_def minMax_def)
  from a b show ?thesis by (rule conjI)
qed

end
